theory Spec2Isabelle
  imports Complex_Main
begin

section \<open>Data model\<close>

text \<open>
  The ledger objects come from the piecash library; the scripts only read them.
  A commodity is identified by its mnemonic. A date is its proleptic ordinal day
  number, so that \<open>abs (d1 - d2)\<close> is the length of a \<open>timedelta\<close> in days.
  Python's \<open>Decimal\<close> and \<open>float\<close> values are idealised as real numbers: rounding is
  not modelled, exceptions are.
\<close>

datatype commodity = Commodity (mnemonic: string)

type_synonym date = int

record price =
  p_commodity :: commodity
  p_currency :: commodity
  p_date :: date
  p_value :: real

datatype message =
    Cannot_convert commodity commodity
  | Could_not_find_rate string string

datatype error =
    PriceNotFoundError message
  | BadDataError
  | GncConversionError
  | ZeroDivisionError
  | TypeError
  | KeyError
  | ValueError
  | AttributeError

text \<open>
  \<open>closest_conv_cache: dict[tuple, dict[date, float]]\<close>, and \<open>None\<close> when the caller
  passes no cache.
\<close>

type_synonym conv_cache = "commodity \<times> commodity \<Rightarrow> (date \<Rightarrow> real option) option"

section \<open>Price resolution: \<open>currency_conversion_on_date\<close> (src/utils.py)\<close>

text \<open>
  \<open>commodity.prices.filter_by(currency=currency).order_by(Price.date.asc())\<close>: the
  prices of the book quoted from \<open>commodity\<close> in \<open>currency\<close>, by ascending date
  (prices of one date keep their table order).
\<close>

definition prices_filter_by :: "price list \<Rightarrow> commodity \<Rightarrow> commodity \<Rightarrow> price list" where
  "prices_filter_by prices com cur =
     sort_key p_date (filter (\<lambda>p. p_commodity p = com \<and> p_currency p = cur) prices)"

text \<open>
  Python's \<open>min(xs, key=k)\<close> keeps the first element of least key: a later element
  replaces the best one only when its key is strictly smaller.
\<close>

fun min_from :: "('a \<Rightarrow> int) \<Rightarrow> 'a \<Rightarrow> 'a list \<Rightarrow> 'a" where
  "min_from key best [] = best"
| "min_from key best (x # xs) = min_from key (if key x < key best then x else best) xs"

text \<open>
  \<open>min(rates, key=lambda p: abs(p.date - on_date)) if rates.count() else None\<close>
\<close>

definition closest :: "date \<Rightarrow> price list \<Rightarrow> price option" where
  "closest on_date rates =
     (case rates of
        [] \<Rightarrow> None
      | p # ps \<Rightarrow> Some (min_from (\<lambda>q. \<bar>p_date q - on_date\<bar>) p ps))"

text \<open>\<open>1 / x\<close> on a \<open>Decimal\<close> or a \<open>float\<close> raises on a zero divisor.\<close>

definition py_div :: "real \<Rightarrow> real \<Rightarrow> error + real" where
  "py_div a b = (if b = 0 then Inl ZeroDivisionError else Inr (a / b))"

definition cache_lookup :: "conv_cache option \<Rightarrow> commodity \<times> commodity \<Rightarrow> date \<Rightarrow> real option" where
  "cache_lookup cache pair on_date =
     (case cache of
        None \<Rightarrow> None
      | Some c \<Rightarrow> (case c pair of None \<Rightarrow> None | Some m \<Rightarrow> m on_date))"

definition cache_store :: "conv_cache \<Rightarrow> commodity \<times> commodity \<Rightarrow> date \<Rightarrow> real \<Rightarrow> conv_cache" where
  "cache_store c pair on_date v =
     c(pair \<mapsto> (case c pair of None \<Rightarrow> Map.empty | Some m \<Rightarrow> m)(on_date \<mapsto> v))"

text \<open>
  The function returns the factor together with the cache as the call leaves it. An
  exception is raised before the cache is written, so a failing call leaves the cache
  as it found it and the error alone is returned.
\<close>

definition currency_conversion_on_date ::
  "price list \<Rightarrow> commodity \<Rightarrow> commodity \<Rightarrow> date \<Rightarrow> conv_cache option
     \<Rightarrow> error + (real \<times> conv_cache option)" where
  "currency_conversion_on_date prices com currency on_date closest_conv_cache =
     (let pair = (com, currency) in
      if com = currency then Inr (1, closest_conv_cache)
      else
        (case cache_lookup closest_conv_cache pair on_date of
           Some v \<Rightarrow> Inr (v, closest_conv_cache)
         | None \<Rightarrow>
            (let forward_rates = prices_filter_by prices com currency;
                 reverse_rates = prices_filter_by prices currency com;
                 closest_forward = closest on_date forward_rates;
                 closest_reverse = closest on_date reverse_rates;
                 found =
                   (case closest_forward of
                      None \<Rightarrow>
                        (case closest_reverse of
                           None \<Rightarrow> Inl (PriceNotFoundError (Cannot_convert com currency))
                         | Some r \<Rightarrow> py_div 1 (p_value r))
                    | Some f \<Rightarrow>
                        (case closest_reverse of
                           None \<Rightarrow> Inr (p_value f)
                         | Some r \<Rightarrow>
                             if \<bar>p_date f - on_date\<bar> \<le> \<bar>p_date r - on_date\<bar>
                             then Inr (p_value f)
                             else py_div 1 (p_value r)))
             in case found of
                  Inl e \<Rightarrow> Inl e
                | Inr v \<Rightarrow>
                    Inr (v, map_option (\<lambda>c. cache_store c pair on_date v) closest_conv_cache))))"

section \<open>Accounts and the historical balance: \<open>get_historical_balance\<close> (src/utils.py)\<close>

text \<open>
  A split carries its quantity and the post date of its transaction. An account is a
  node of the account tree with its name, commodity, sign (\<open>1\<close> or \<open>-1\<close>), splits
  and children; its \<open>parent\<close> attribute (absent on the root) is passed beside the
  account, since a tree value holds no reference to its parent.
\<close>

record split =
  sp_quantity :: real
  sp_post_date :: date

datatype account =
  Account (acc_name: string) (acc_commodity: commodity) (acc_sign: int)
    (acc_splits: "split list") (acc_children: "account list")

text \<open>
  piecash's own \<open>Commodity.currency_conversion\<close> (the conversion at the latest price,
  used when no date is given) is library code outside the repository: it is a parameter
  \<open>cc\<close> of the model, returning \<open>float(a.currency_conversion(b))\<close> or the exception.
\<close>

type_synonym latest_conversion = "commodity \<Rightarrow> commodity \<Rightarrow> error + real"

text \<open>\<open>except (PriceNotFoundError, GncConversionError)\<close>\<close>

fun caught :: "error \<Rightarrow> bool" where
  "caught (PriceNotFoundError m) = True"
| "caught GncConversionError = True"
| "caught e = False"

text \<open>
  Lines 138 to 158 of \<open>get_historical_balance\<close>: the conversion of the account's own
  balance into the target commodity. With a date and no cache a fresh cache is created
  before the direct attempt and stays in use afterwards. In the handler
  \<open>account.parent.commodity\<close> raises \<open>AttributeError\<close> on an account without parent.
\<close>

definition convert_balance ::
  "price list \<Rightarrow> latest_conversion \<Rightarrow> account \<Rightarrow> account option \<Rightarrow> commodity \<Rightarrow> date option
     \<Rightarrow> conv_cache option \<Rightarrow> real \<Rightarrow> error + (real \<times> conv_cache option)" where
  "convert_balance prices cc account parent commodity at_date closest_conv_cache balance =
     (if commodity \<noteq> acc_commodity account then
        (let cache1 =
               (case at_date of
                  None \<Rightarrow> closest_conv_cache
                | Some d \<Rightarrow>
                    (case closest_conv_cache of None \<Rightarrow> Some Map.empty | Some c \<Rightarrow> Some c));
             direct =
               (case at_date of
                  Some d \<Rightarrow> currency_conversion_on_date prices (acc_commodity account) commodity d cache1
                | None \<Rightarrow> map_sum id (\<lambda>f. (f, cache1)) (cc (acc_commodity account) commodity))
         in case direct of
              Inr (factor, cache2) \<Rightarrow> Inr (balance * factor, cache2)
            | Inl e \<Rightarrow>
                if caught e then
                  (case parent of
                     None \<Rightarrow> Inl AttributeError
                   | Some par \<Rightarrow>
                       (case (case at_date of
                                Some d \<Rightarrow> currency_conversion_on_date prices
                                            (acc_commodity account) (acc_commodity par) d cache1
                              | None \<Rightarrow> map_sum id (\<lambda>f. (f, cache1))
                                            (cc (acc_commodity account) (acc_commodity par))) of
                          Inl e1 \<Rightarrow> Inl e1
                        | Inr (factor1, cache2) \<Rightarrow>
                            (case (case at_date of
                                     Some d \<Rightarrow> currency_conversion_on_date prices
                                                 (acc_commodity par) commodity d cache2
                                   | None \<Rightarrow> map_sum id (\<lambda>f. (f, cache2))
                                                 (cc (acc_commodity par) commodity)) of
                               Inl e2 \<Rightarrow> Inl e2
                             | Inr (factor2, cache3) \<Rightarrow>
                                 Inr (balance * (factor1 * factor2), cache3))))
                else Inl e)
      else Inr (balance, closest_conv_cache))"

text \<open>
  Lines 127 to 137: the sum of the quantities of the splits posted on or before
  \<open>at_date\<close>, or of all splits when no date is given.
\<close>

definition own_quantity :: "split list \<Rightarrow> date option \<Rightarrow> real" where
  "own_quantity sps at_date =
     (case at_date of
        None \<Rightarrow> sum_list (map sp_quantity sps)
      | Some d \<Rightarrow> sum_list (map sp_quantity (filter (\<lambda>sp. sp_post_date sp \<le> d) sps)))"

text \<open>
  \<open>children_sum\<close> is the \<open>sum(... for acc in account.children)\<close> of lines 161 to 171:
  it starts from 0, calls the function on each child in order with \<open>recurse\<close> true,
  \<open>natural_sign\<close> false and the cache in use, and stops at the first exception. A
  cache passed by the caller comes back updated; a cache created inside the call is
  dropped on return.
\<close>

fun get_historical_balance ::
  "price list \<Rightarrow> latest_conversion \<Rightarrow> account \<Rightarrow> account option \<Rightarrow> bool \<Rightarrow> commodity option
     \<Rightarrow> bool \<Rightarrow> date option \<Rightarrow> conv_cache option \<Rightarrow> error + (real \<times> conv_cache option)"
and children_sum ::
  "price list \<Rightarrow> latest_conversion \<Rightarrow> account list \<Rightarrow> account \<Rightarrow> commodity \<Rightarrow> date option
     \<Rightarrow> conv_cache option \<Rightarrow> real \<Rightarrow> error + (real \<times> conv_cache option)"
where
  "get_historical_balance prices cc (Account nm com sg sps chs) parent recurse commodity
       natural_sign at_date closest_conv_cache =
     (let account = Account nm com sg sps chs;
          commodity1 = (case commodity of None \<Rightarrow> com | Some c \<Rightarrow> c);
          balance = own_quantity sps at_date
      in case convert_balance prices cc account parent commodity1 at_date closest_conv_cache balance of
           Inl e \<Rightarrow> Inl e
         | Inr (balance1, cache1) \<Rightarrow>
             (case (if recurse \<and> chs \<noteq> []
                    then (case children_sum prices cc chs account commodity1 at_date cache1 0 of
                            Inl e \<Rightarrow> Inl e
                          | Inr (s, cache2) \<Rightarrow> Inr (balance1 + s, cache2))
                    else Inr (balance1, cache1)) of
                Inl e \<Rightarrow> Inl e
              | Inr (balance2, cache2) \<Rightarrow>
                  Inr (if natural_sign then balance2 * of_int sg else balance2,
                       case closest_conv_cache of None \<Rightarrow> None | Some c \<Rightarrow> cache2)))"
| "children_sum prices cc [] account commodity at_date cache start = Inr (start, cache)"
| "children_sum prices cc (acc # accs) account commodity at_date cache start =
     (case get_historical_balance prices cc acc (Some account) True (Some commodity) False
             at_date cache of
        Inl e \<Rightarrow> Inl e
      | Inr (b, cache') \<Rightarrow> children_sum prices cc accs account commodity at_date cache' (start + b))"

text \<open>The value a call returns or the exception it raises, without the cache.\<close>

definition outcome :: "error + (real \<times> conv_cache option) \<Rightarrow> error + real" where
  "outcome r = map_sum id fst r"

text \<open>
  Python's \<open>sum\<close> over a generator whose items may raise: the items are added from
  the left, starting from \<open>start\<close>, and the first exception ends the sum. \<open>add_results\<close>
  is \<open>a + b\<close> for two such results, the left one evaluated first.
\<close>

fun sum_results :: "real \<Rightarrow> (error + real) list \<Rightarrow> error + real" where
  "sum_results start [] = Inr start"
| "sum_results start (Inl e # rs) = Inl e"
| "sum_results start (Inr v # rs) = sum_results (start + v) rs"

definition add_results :: "error + real \<Rightarrow> error + real \<Rightarrow> error + real" where
  "add_results a b =
     (case a of Inl e \<Rightarrow> Inl e | Inr x \<Rightarrow> (case b of Inl e \<Rightarrow> Inl e | Inr y \<Rightarrow> Inr (x + y)))"

subsection \<open>The balance without the cache\<close>

text \<open>
  The definitions of this subsection are not code of the program. They describe what
  the cache may hold (\<open>cache_consistent\<close>: every cached factor is the factor a search
  of the price table returns) and what a balance is when no factor is cached; the
  proofs show that the program computes the same outcome with any consistent cache.
\<close>

definition cache_consistent :: "price list \<Rightarrow> conv_cache option \<Rightarrow> bool" where
  "cache_consistent prices cache \<longleftrightarrow>
     (\<forall>com cur d v. com \<noteq> cur \<longrightarrow> cache_lookup cache (com, cur) d = Some v \<longrightarrow>
        currency_conversion_on_date prices com cur d None = Inr (v, None))"

definition resolve :: "price list \<Rightarrow> latest_conversion \<Rightarrow> commodity \<Rightarrow> commodity \<Rightarrow> date option \<Rightarrow> error + real" where
  "resolve P cc x y at_date =
     (case at_date of Some d \<Rightarrow> outcome (currency_conversion_on_date P x y d None) | None \<Rightarrow> cc x y)"

definition convert_pure ::
  "price list \<Rightarrow> latest_conversion \<Rightarrow> account \<Rightarrow> account option \<Rightarrow> commodity \<Rightarrow> date option \<Rightarrow> real \<Rightarrow> error + real" where
  "convert_pure P cc a par c at_date b =
     (if c \<noteq> acc_commodity a then
        (case resolve P cc (acc_commodity a) c at_date of
           Inr f \<Rightarrow> Inr (b * f)
         | Inl e \<Rightarrow>
             if caught e then
               (case par of
                  None \<Rightarrow> Inl AttributeError
                | Some p \<Rightarrow>
                    (case resolve P cc (acc_commodity a) (acc_commodity p) at_date of
                       Inl e1 \<Rightarrow> Inl e1
                     | Inr f1 \<Rightarrow>
                         (case resolve P cc (acc_commodity p) c at_date of
                            Inl e2 \<Rightarrow> Inl e2
                          | Inr f2 \<Rightarrow> Inr (b * (f1 * f2)))))
             else Inl e)
      else Inr b)"

definition cache_free :: "price list \<Rightarrow> latest_conversion \<Rightarrow> account \<Rightarrow> bool" where
  "cache_free P cc a \<longleftrightarrow>
     (\<forall>par recurse commodity ns d co. cache_consistent P co \<longrightarrow>
        outcome (get_historical_balance P cc a par recurse commodity ns d co)
          = outcome (get_historical_balance P cc a par recurse commodity ns d None)
        \<and> (\<forall>v co'. get_historical_balance P cc a par recurse commodity ns d co = Inr (v, co')
              \<longrightarrow> cache_consistent P co'))"

definition balance_pure ::
  "price list \<Rightarrow> latest_conversion \<Rightarrow> account \<Rightarrow> account option \<Rightarrow> bool \<Rightarrow> commodity option \<Rightarrow> bool
     \<Rightarrow> date option \<Rightarrow> error + real" where
  "balance_pure P cc a par recurse commodity ns d =
     (let c1 = (case commodity of None \<Rightarrow> acc_commodity a | Some c \<Rightarrow> c) in
      case convert_pure P cc a par c1 d (own_quantity (acc_splits a) d) of
        Inl e \<Rightarrow> Inl e
      | Inr b1 \<Rightarrow>
          (case (if recurse \<and> acc_children a \<noteq> []
                 then (case sum_results 0 (map (\<lambda>ch. outcome (get_historical_balance P cc ch (Some a) True (Some c1) False d None)) (acc_children a)) of
                         Inl e \<Rightarrow> Inl e
                       | Inr s \<Rightarrow> Inr (b1 + s))
                 else Inr b1) of
             Inl e \<Rightarrow> Inl e
           | Inr b2 \<Rightarrow> Inr (if ns then b2 * of_int (acc_sign a) else b2)))"

subsection \<open>Example ledgers\<close>

definition no_latest :: latest_conversion where
  "no_latest a b = Inl GncConversionError"

definition loan :: account where
  "loan = Account ''Loan'' (Commodity ''EUR'') (- 1) [\<lparr>sp_quantity = 5, sp_post_date = 1\<rparr>] []"

definition liabilities :: account where
  "liabilities = Account ''Liabilities'' (Commodity ''EUR'') (- 1) [] [loan]"

text \<open>
  A current account in USD under a bank account in GBP (which holds 40 GBP itself),
  with prices from USD to GBP and from GBP to EUR but none between USD and EUR.
\<close>

definition usd_gbp_eur_prices :: "price list" where
  "usd_gbp_eur_prices =
     [\<lparr>p_commodity = Commodity ''USD'', p_currency = Commodity ''GBP'', p_date = 20, p_value = 4 / 5\<rparr>,
      \<lparr>p_commodity = Commodity ''GBP'', p_currency = Commodity ''EUR'', p_date = 20, p_value = 23 / 20\<rparr>]"

definition current_account :: account where
  "current_account = Account ''Checking'' (Commodity ''USD'') 1 [\<lparr>sp_quantity = 100, sp_post_date = 3\<rparr>] []"

definition bank :: account where
  "bank =
     Account ''Bank'' (Commodity ''GBP'') 1 [\<lparr>sp_quantity = 40, sp_post_date = 2\<rparr>]
       [current_account]"

definition root_account :: account where
  "root_account = Account ''Root Account'' (Commodity ''EUR'') 1 [] [bank]"

section \<open>The ECB exchange rate history (src/prices/ecb_fx.py)\<close>

text \<open>
  An XML element with its qualified tag, its attributes and its subelements.
  \<open>find\<close> and \<open>findall\<close> with the path \<open>ecb:Cube\<close> look at the direct subelements
  and \<open>findall\<close> with \<open>.//ecb:Cube\<close> at all descendants, in document order.
\<close>

datatype element =
  Element (el_tag: string) (el_attrib: "(string \<times> string) list") (el_children: "element list")

definition ecb_Cube :: string where
  "ecb_Cube = ''{http://www.ecb.int/vocabulary/2002-08-01/eurofxref}Cube''"

fun descendants :: "element \<Rightarrow> element list" where
  "descendants (Element t a cs) = concat (map (\<lambda>c. c # descendants c) cs)"

definition findall :: "element \<Rightarrow> string \<Rightarrow> element list" where
  "findall e t = filter (\<lambda>c. el_tag c = t) (el_children e)"

definition find_first :: "element \<Rightarrow> string \<Rightarrow> element option" where
  "find_first e t = (case findall e t of [] \<Rightarrow> None | c # cs \<Rightarrow> Some c)"

definition findall_descendants :: "element \<Rightarrow> string \<Rightarrow> element list" where
  "findall_descendants e t = filter (\<lambda>c. el_tag c = t) (descendants e)"

text \<open>\<open>element.attrib[key]\<close>\<close>

definition attrib_get :: "element \<Rightarrow> string \<Rightarrow> error + string" where
  "attrib_get e k = (case map_of (el_attrib e) k of None \<Rightarrow> Inl KeyError | Some v \<Rightarrow> Inr v)"

text \<open>
  The two library conversions are parameters of the model: \<open>to_float s\<close> is
  \<open>float(s)\<close> and \<open>strptime s\<close> is \<open>datetime.strptime(s, '%Y-%m-%d').date()\<close>, each
  with \<open>ValueError\<close> on a string it does not accept.
\<close>

type_synonym to_float = "string \<Rightarrow> error + real"
type_synonym strptime = "string \<Rightarrow> error + date"

text \<open>
  The loop of \<open>ecb_fx_rate_from_eur\<close>: \<open>None\<close> when it ends without returning.
\<close>

fun first_rate :: "to_float \<Rightarrow> element list \<Rightarrow> string \<Rightarrow> (error + real) option" where
  "first_rate to_float [] currency = None"
| "first_rate to_float (c # cs) currency =
     (case attrib_get c ''currency'' of
        Inl e \<Rightarrow> Some (Inl e)
      | Inr cur \<Rightarrow>
          if cur = currency
          then Some (case attrib_get c ''rate'' of Inl e \<Rightarrow> Inl e | Inr r \<Rightarrow> to_float r)
          else first_rate to_float cs currency)"

definition ecb_fx_rate_from_eur :: "to_float \<Rightarrow> element \<Rightarrow> string \<Rightarrow> error + real" where
  "ecb_fx_rate_from_eur to_float xml_cube currency =
     (case first_rate to_float (findall_descendants xml_cube ecb_Cube) currency of
        Some r \<Rightarrow> r
      | None \<Rightarrow>
          (case attrib_get xml_cube ''time'' of
             Inl e \<Rightarrow> Inl e
           | Inr t \<Rightarrow> Inl (PriceNotFoundError (Could_not_find_rate currency t))))"

definition ecb_fx_rate :: "to_float \<Rightarrow> element \<Rightarrow> string \<Rightarrow> string \<Rightarrow> error + real" where
  "ecb_fx_rate to_float xml_cube to_currency from_currency =
     (if to_currency = from_currency then Inr 1
      else if from_currency = ''EUR'' then ecb_fx_rate_from_eur to_float xml_cube to_currency
      else if to_currency = ''EUR'' then
        (case ecb_fx_rate_from_eur to_float xml_cube from_currency of
           Inl e \<Rightarrow> Inl e
         | Inr r \<Rightarrow> py_div 1 r)
      else
        (case ecb_fx_rate_from_eur to_float xml_cube to_currency of
           Inl e \<Rightarrow> Inl e
         | Inr a \<Rightarrow>
             (case ecb_fx_rate_from_eur to_float xml_cube from_currency of
                Inl e \<Rightarrow> Inl e
              | Inr b \<Rightarrow> py_div a b)))"

text \<open>
  The loop of \<open>ecb_fx_rate_range\<close> over the date cubes, with the \<open>results\<close> dictionary
  and the warnings issued so far. Only \<open>PriceNotFoundError\<close> is caught and turned
  into a warning; any other exception leaves the function.
\<close>

fun rate_range_loop ::
  "strptime \<Rightarrow> to_float \<Rightarrow> element list \<Rightarrow> date \<Rightarrow> date \<Rightarrow> string \<Rightarrow> string \<Rightarrow> date set
     \<Rightarrow> (date \<Rightarrow> real option) \<Rightarrow> message list \<Rightarrow> error + ((date \<Rightarrow> real option) \<times> message list)" where
  "rate_range_loop strptime to_float [] start_date end_date to_currency from_currency
       exclude_dates results warnings = Inr (results, warnings)"
| "rate_range_loop strptime to_float (date_cube # cubes) start_date end_date to_currency
       from_currency exclude_dates results warnings =
     (case attrib_get date_cube ''time'' of
        Inl e \<Rightarrow> Inl e
      | Inr t \<Rightarrow>
          (case strptime t of
             Inl e \<Rightarrow> Inl e
           | Inr date' \<Rightarrow>
               if (start_date < date' \<and> date' \<le> end_date) \<and> \<not> (date' \<in> exclude_dates) then
                 (case ecb_fx_rate to_float date_cube to_currency from_currency of
                    Inr rate \<Rightarrow>
                      rate_range_loop strptime to_float cubes start_date end_date to_currency
                        from_currency exclude_dates (results(date' \<mapsto> rate)) warnings
                  | Inl (PriceNotFoundError m) \<Rightarrow>
                      rate_range_loop strptime to_float cubes start_date end_date to_currency
                        from_currency exclude_dates results (warnings @ [m])
                  | Inl e \<Rightarrow> Inl e)
               else
                 rate_range_loop strptime to_float cubes start_date end_date to_currency
                   from_currency exclude_dates results warnings))"

text \<open>
  \<open>from_currency\<close> is passed by the caller (\<open>'EUR'\<close> when the Python caller leaves it
  out). The function returns the \<open>results\<close> dictionary; the warnings are its other
  visible effect.
\<close>

definition ecb_fx_rate_range ::
  "strptime \<Rightarrow> to_float \<Rightarrow> element \<Rightarrow> date \<Rightarrow> date \<Rightarrow> string \<Rightarrow> string \<Rightarrow> date set option
     \<Rightarrow> error + ((date \<Rightarrow> real option) \<times> message list)" where
  "ecb_fx_rate_range strptime to_float xml_root start_date end_date to_currency from_currency
       exclude_dates =
     (let exclude_dates1 = (case exclude_dates of None \<Rightarrow> {} | Some s \<Rightarrow> s) in
      case find_first xml_root ecb_Cube of
        None \<Rightarrow> Inl BadDataError
      | Some top_cube \<Rightarrow>
          rate_range_loop strptime to_float (findall top_cube ecb_Cube) start_date end_date
            to_currency from_currency exclude_dates1 Map.empty [])"

text \<open>
  A small rate file: one cube for 2019-01-01 and one for 2019-01-02, each with a USD
  rate, and the two conversions on the strings it uses.
\<close>

definition day_cube :: "string \<Rightarrow> string \<Rightarrow> element" where
  "day_cube t r =
     Element ecb_Cube [(''time'', t)]
       [Element ecb_Cube [(''currency'', ''USD''), (''rate'', r)] []]"

definition rate_file :: element where
  "rate_file =
     Element ''{http://www.gesmes.org/xml/2002-08-01}Envelope'' []
       [Element ecb_Cube []
          [day_cube ''2019-01-02'' ''1.25'', day_cube ''2019-01-01'' ''1.5'']]"

definition strptime_2019 :: strptime where
  "strptime_2019 s =
     (if s = ''2019-01-01'' then Inr 737060
      else if s = ''2019-01-02'' then Inr 737061
      else Inl ValueError)"

definition to_float_2019 :: to_float where
  "to_float_2019 s =
     (if s = ''1.25'' then Inr (5 / 4)
      else if s = ''1.5'' then Inr (3 / 2)
      else Inl ValueError)"

section \<open>The aggregation layer: \<open>BookAnalysis\<close> (src/analysis.py)\<close>

text \<open>
  The book as the analysis reads it: its price table, its commodities and its root
  account. \<open>BookAnalysis\<close> holds the book and nothing else.
\<close>

record book =
  b_prices :: "price list"
  b_commodities :: "commodity list"
  b_root_account :: account

text \<open>\<open>str.split(sep)\<close> for a separator of one character.\<close>

fun split_on :: "char \<Rightarrow> string \<Rightarrow> string list" where
  "split_on sep [] = [[]]"
| "split_on sep (x # xs) =
     (if x = sep then [] # split_on sep xs
      else (case split_on sep xs of
              [] \<Rightarrow> [[x]]
            | t # ts \<Rightarrow> (x # t) # ts))"

text \<open>
  \<open>account.children(name=t)\<close>: the first child of that name, \<open>KeyError\<close> when there
  is none.
\<close>

definition children_named :: "account \<Rightarrow> string \<Rightarrow> error + account" where
  "children_named account t =
     (case filter (\<lambda>c. acc_name c = t) (acc_children account) of
        [] \<Rightarrow> Inl KeyError
      | c # cs \<Rightarrow> Inr c)"

text \<open>
  The loop of \<open>get_account\<close> over the tokens; the account is returned with its parent.
\<close>

fun descend :: "account \<Rightarrow> account option \<Rightarrow> string list \<Rightarrow> error + (account \<times> account option)" where
  "descend account parent [] = Inr (account, parent)"
| "descend account parent (t # tokens) =
     (case children_named account t of
        Inl e \<Rightarrow> Inl e
      | Inr c \<Rightarrow> descend c (Some account) tokens)"

definition get_account :: "book \<Rightarrow> string \<Rightarrow> error + (account \<times> account option)" where
  "get_account book full_name = descend (b_root_account book) None (split_on CHR '':'' full_name)"

text \<open>
  A Python call binds each keyword argument to a parameter of the callee and raises
  \<open>TypeError\<close> for a keyword that the signature does not have. \<open>get_historical_balance\<close>
  has the six parameters below and takes no \<open>**kwargs\<close>.
\<close>

definition get_historical_balance_parameters :: "string list" where
  "get_historical_balance_parameters =
     [''account'', ''recurse'', ''commodity'', ''natural_sign'', ''at_date'', ''closest_conv_cache'']"

definition call_with_keywords :: "string list \<Rightarrow> string list \<Rightarrow> error + 'a \<Rightarrow> error + 'a" where
  "call_with_keywords parameters keywords result =
     (if set keywords \<subseteq> set parameters then result else Inl TypeError)"

text \<open>
  \<open>agg_balance\<close> passes the account positionally and the keywords \<open>commodity\<close>,
  \<open>at_date\<close>, \<open>via\<close> and \<open>natural_sign\<close>.
\<close>

definition agg_balance ::
  "book \<Rightarrow> latest_conversion \<Rightarrow> string list \<Rightarrow> commodity \<Rightarrow> commodity option \<Rightarrow> date option
     \<Rightarrow> error + real" where
  "agg_balance book cc account_names currency via at_date =
     sum_results 0
       (map (\<lambda>a. case get_account book a of
                   Inl e \<Rightarrow> Inl e
                 | Inr (acct, parent) \<Rightarrow>
                     call_with_keywords get_historical_balance_parameters
                       [''commodity'', ''at_date'', ''via'', ''natural_sign'']
                       (outcome (get_historical_balance (b_prices book) cc acct parent True
                                   (Some currency) False at_date None)))
          account_names)"

text \<open>A book around the example accounts.\<close>

definition bank_book :: book where
  "bank_book =
     \<lparr>b_prices = usd_gbp_eur_prices,
      b_commodities = [Commodity ''EUR'', Commodity ''GBP'', Commodity ''USD''],
      b_root_account = root_account\<rparr>"

section \<open>The top-N reducer: \<open>top_and_other\<close> (src/utils.py)\<close>

text \<open>
  A \<open>pandas.Series\<close> is the list of its index labels and values, in index order. A
  \<open>pandas.DataFrame\<close> is its row index and its columns, each column a label and one
  value for every row.
\<close>

type_synonym series = "(string \<times> real) list"

record dataframe =
  df_index :: "date list"
  df_columns :: "(string \<times> real list) list"

datatype data = Series series | DataFrame dataframe

text \<open>
  \<open>sort_values(ascending=False)\<close>: by descending value. pandas reverses the data,
  sorts it ascending and reverses the outcome; entries of equal value keep their order
  when that sort is stable (pandas does not promise an order among them).
\<close>

definition sort_values_descending :: "(string \<times> real) list \<Rightarrow> (string \<times> real) list" where
  "sort_values_descending s = rev (sort_key snd (rev s))"

text \<open>The slices \<open>xs[:n]\<close> and \<open>xs[n:]\<close>; a negative \<open>n\<close> counts from the end.\<close>

definition slice_to :: "'a list \<Rightarrow> int \<Rightarrow> 'a list" where
  "slice_to xs n = (if n < 0 then take (length xs - nat (- n)) xs else take (nat n) xs)"

definition slice_from :: "'a list \<Rightarrow> int \<Rightarrow> 'a list" where
  "slice_from xs n = (if n < 0 then drop (length xs - nat (- n)) xs else drop (nat n) xs)"

text \<open>
  \<open>data[labels]\<close> for labels taken from the index of \<open>data\<close>: for each label in turn,
  the entries (or columns) that carry it.
\<close>

definition select :: "(string \<times> 'a) list \<Rightarrow> string list \<Rightarrow> (string \<times> 'a) list" where
  "select entries labels = concat (map (\<lambda>l. filter (\<lambda>e. fst e = l) entries) labels)"

text \<open>
  \<open>data[label] = v\<close>: the entries (or columns) that carry the label are overwritten,
  and when there is none a new one is appended.
\<close>

definition set_item :: "(string \<times> 'a) list \<Rightarrow> string \<Rightarrow> 'a \<Rightarrow> (string \<times> 'a) list" where
  "set_item entries l v =
     (if l \<in> fst ` set entries
      then map (\<lambda>e. if fst e = l then (l, v) else e) entries
      else entries @ [(l, v)])"

text \<open>\<open>sum(axis=1)\<close> of a frame of \<open>n\<close> rows: the sum of each row over the columns.\<close>

definition row_sums :: "nat \<Rightarrow> (string \<times> real list) list \<Rightarrow> real list" where
  "row_sums n columns = foldr (\<lambda>column partial. map2 (+) (snd column) partial) columns (replicate n 0)"

definition top_and_other :: "data \<Rightarrow> int \<Rightarrow> data" where
  "top_and_other in_data top_n =
     (case in_data of
        DataFrame df \<Rightarrow>
          (let totals = map (\<lambda>column. (fst column, sum_list (snd column))) (df_columns df);
               sorted_col_names = map fst (sort_values_descending totals);
               top_col_names = slice_to sorted_col_names top_n;
               other_col_names = slice_from sorted_col_names top_n;
               top_cols = select (df_columns df) top_col_names
           in DataFrame
                (df\<lparr>df_columns :=
                      set_item top_cols ''Other''
                        (row_sums (length (df_index df)) (select (df_columns df) other_col_names))\<rparr>))
      | Series s \<Rightarrow>
          (let totals = s;
               sorted_col_names = map fst (sort_values_descending totals);
               top_col_names = slice_to sorted_col_names top_n;
               other_col_names = slice_from sorted_col_names top_n;
               top_cols = select s top_col_names
           in Series (set_item top_cols ''Other'' (sum_list (map snd (select s other_col_names))))))"

text \<open>
  The total of each row of a table, and the one total of a series.
\<close>

definition row_totals :: "data \<Rightarrow> real list" where
  "row_totals d =
     (case d of
        Series s \<Rightarrow> [sum_list (map snd s)]
      | DataFrame df \<Rightarrow> row_sums (length (df_index df)) (df_columns df))"

text \<open>
  Expenses by category, one of the categories being called Other; and the same
  categories over two weeks.
\<close>

definition expenses :: series where
  "expenses = [(''Other'', 500), (''Food'', 300), (''Rent'', 200), (''Fuel'', 10)]"

definition weekly_expenses :: dataframe where
  "weekly_expenses =
     \<lparr>df_index = [738000, 738007],
      df_columns = [(''Other'', [300, 200]), (''Food'', [100, 200]), (''Rent'', [100, 100]), (''Fuel'', [4, 6])]\<rparr>"

text \<open>Every column of a frame has one value for each row of the index.\<close>

definition well_formed :: "dataframe \<Rightarrow> bool" where
  "well_formed df \<longleftrightarrow> list_all (\<lambda>column. length (snd column) = length (df_index df)) (df_columns df)"

section \<open>The currency breakdown: \<open>balance_by_currency\<close> (src/analysis.py)\<close>

text \<open>
  The \<open>pandas.Series\<close> that \<open>balance_by_currency\<close> builds is used as a mapping from
  currency codes to amounts: it is modelled as a map, which leaves the order of its
  index out. \<open>a.add(b, fill_value=0)\<close> has the labels of both, a label missing on one
  side counting as 0 there.
\<close>

type_synonym currency_series = "string \<Rightarrow> real option"

definition series_add :: "currency_series \<Rightarrow> currency_series \<Rightarrow> currency_series" where
  "series_add a b =
     (\<lambda>k. case a k of
            None \<Rightarrow> (case b k of None \<Rightarrow> None | Some y \<Rightarrow> Some (0 + y))
          | Some x \<Rightarrow> (case b k of None \<Rightarrow> Some (x + 0) | Some y \<Rightarrow> Some (x + y)))"

text \<open>
  \<open>currency\<close> is \<open>None\<close>, an ISO string or a commodity; a string is looked up in
  \<open>book.commodities(mnemonic=currency)\<close>, which raises \<open>KeyError\<close> when the book has
  no such commodity.
\<close>

definition resolve_currency :: "book \<Rightarrow> (string + commodity) option \<Rightarrow> error + commodity option" where
  "resolve_currency book currency =
     (case currency of
        None \<Rightarrow> Inr None
      | Some (Inr c) \<Rightarrow> Inr (Some c)
      | Some (Inl code) \<Rightarrow>
          (case filter (\<lambda>c. mnemonic c = code) (b_commodities book) of
             [] \<Rightarrow> Inl KeyError
           | c # cs \<Rightarrow> Inr (Some c)))"

text \<open>
  \<open>children_by_currency\<close> is the loop of \<open>balance_by_currency\<close> over the children,
  adding each child's series to the series built so far.
\<close>

fun balance_by_currency ::
  "book \<Rightarrow> latest_conversion \<Rightarrow> account \<Rightarrow> account option \<Rightarrow> date option
     \<Rightarrow> (string + commodity) option \<Rightarrow> error + currency_series"
and children_by_currency ::
  "book \<Rightarrow> latest_conversion \<Rightarrow> account list \<Rightarrow> account \<Rightarrow> date option \<Rightarrow> commodity option
     \<Rightarrow> currency_series \<Rightarrow> error + currency_series"
where
  "balance_by_currency book cc (Account nm com sg sps chs) parent at_date currency =
     (let account = Account nm com sg sps chs in
      case resolve_currency book currency of
        Inl e \<Rightarrow> Inl e
      | Inr currency1 \<Rightarrow>
          (case outcome (get_historical_balance (b_prices book) cc account parent False currency1
                           True at_date None) of
             Inl e \<Rightarrow> Inl e
           | Inr balance \<Rightarrow>
               (let total_balances =
                      (if balance \<noteq> 0 then [mnemonic com \<mapsto> 0 + balance] else Map.empty)
                in children_by_currency book cc chs account at_date currency1 total_balances)))"
| "children_by_currency book cc [] account at_date currency series = Inr series"
| "children_by_currency book cc (child # rest) account at_date currency series =
     (case balance_by_currency book cc child (Some account) at_date (map_option Inr currency) of
        Inl e \<Rightarrow> Inl e
      | Inr child_series \<Rightarrow>
          children_by_currency book cc rest account at_date currency (series_add series child_series))"

text \<open>The entry of a returned series under a currency code.\<close>

definition entry :: "error + currency_series \<Rightarrow> string \<Rightarrow> real option" where
  "entry r code = (case r of Inl e \<Rightarrow> None | Inr s \<Rightarrow> s code)"

text \<open>
  The accounts of a subtree, each with its parent, the root of the subtree first.
\<close>

fun subtree :: "account \<Rightarrow> account option \<Rightarrow> (account \<times> account option) list" where
  "subtree (Account nm com sg sps chs) parent =
     (Account nm com sg sps chs, parent)
       # concat (map (\<lambda>child. subtree child (Some (Account nm com sg sps chs))) chs)"

text \<open>
  What one account contributes under a currency code: its own balance
  (\<open>recurse=False\<close>, natural sign) expressed in the target \<open>currency\<close>, or in its own
  commodity when \<open>currency\<close> is \<open>None\<close>, if its commodity has that code and the balance
  is not zero. The contributions of a list of accounts are collected in order.
\<close>

definition contribution ::
  "book \<Rightarrow> latest_conversion \<Rightarrow> commodity option \<Rightarrow> date option \<Rightarrow> string
     \<Rightarrow> account \<times> account option \<Rightarrow> real list" where
  "contribution book cc currency at_date code node =
     (case outcome (get_historical_balance (b_prices book) cc (fst node) (snd node) False currency
                      True at_date None) of
        Inl e \<Rightarrow> []
      | Inr balance \<Rightarrow>
          if mnemonic (acc_commodity (fst node)) = code \<and> balance \<noteq> 0 then [balance] else [])"

definition contributions ::
  "book \<Rightarrow> latest_conversion \<Rightarrow> commodity option \<Rightarrow> date option \<Rightarrow> string
     \<Rightarrow> (account \<times> account option) list \<Rightarrow> real list" where
  "contributions book cc currency at_date code nodes =
     concat (map (contribution book cc currency at_date code) nodes)"

text \<open>
  The entry that a list of contributions makes: none for the empty list, their sum
  otherwise.
\<close>

definition as_entry :: "real list \<Rightarrow> real option" where
  "as_entry bs = (if bs = [] then None else Some (sum_list bs))"

text \<open>The property of one account that the proof carries through the tree.\<close>

definition keyed_by_native :: "book \<Rightarrow> latest_conversion \<Rightarrow> commodity option \<Rightarrow> date option \<Rightarrow> account \<Rightarrow> bool" where
  "keyed_by_native book cc cur d a \<longleftrightarrow>
     (\<forall>par currency s code.
        resolve_currency book currency = Inr cur \<longrightarrow>
        balance_by_currency book cc a par d currency = Inr s \<longrightarrow>
        s code = as_entry (contributions book cc cur d code (subtree a par)))"

section \<open>Properties of price resolution\<close>

lemma min_from_cases: "min_from key best xs = best \<or> min_from key best xs \<in> set xs"
  by (induction xs arbitrary: best) (simp, force)

lemma min_from_le_best: "key (min_from key best xs) \<le> key best"
proof (induction xs arbitrary: best)
  case Nil
  show ?case by simp
next
  case (Cons x xs)
  have "key (min_from key (if key x < key best then x else best) xs)
          \<le> key (if key x < key best then x else best)"
    by (rule Cons.IH)
  also have "\<dots> \<le> key best" by simp
  finally show ?case by simp
qed

lemma min_from_le_all: "x \<in> set xs \<Longrightarrow> key (min_from key best xs) \<le> key x"
proof (induction xs arbitrary: best)
  case Nil
  then show ?case by simp
next
  case (Cons y ys)
  show ?case
  proof (cases "x = y")
    case True
    have "key (min_from key (if key y < key best then y else best) ys)
            \<le> key (if key y < key best then y else best)"
      by (rule min_from_le_best)
    also have "\<dots> \<le> key y" by simp
    finally show ?thesis using True by simp
  next
    case False
    with Cons.prems have "x \<in> set ys" by simp
    then show ?thesis using Cons.IH by simp
  qed
qed

lemma closest_None: "closest d rates = None \<longleftrightarrow> rates = []"
  by (simp add: closest_def split: list.splits)

lemma closest_mem: "closest d rates = Some p \<Longrightarrow> p \<in> set rates"
  using min_from_cases by (fastforce simp: closest_def split: list.splits)

lemma closest_least:
  assumes "closest d rates = Some p" and "q \<in> set rates"
  shows "\<bar>p_date p - d\<bar> \<le> \<bar>p_date q - d\<bar>"
proof (cases rates)
  case Nil
  with assms show ?thesis by simp
next
  case (Cons r rs)
  with assms have p: "p = min_from (\<lambda>q. \<bar>p_date q - d\<bar>) r rs"
    by (simp add: closest_def)
  from assms Cons have "q = r \<or> q \<in> set rs" by simp
  then show ?thesis
  proof
    assume "q = r"
    then show ?thesis using min_from_le_best [of "\<lambda>q. \<bar>p_date q - d\<bar>" r rs] p by simp
  next
    assume "q \<in> set rs"
    then show ?thesis using min_from_le_all [of q rs "\<lambda>q. \<bar>p_date q - d\<bar>" r] p by simp
  qed
qed

text \<open>
  Claim C8. For every commodity \<open>C\<close> and every date, converting \<open>C\<close> to itself returns
  exactly 1. The result is the same for every price table, so no price is looked up, and
  the cache comes back as it was passed: no entry is created.
\<close>

theorem same_commodity_is_one:
  "currency_conversion_on_date prices C C on_date cache = Inr (1, cache)"
  by (simp add: currency_conversion_on_date_def)

text \<open>
  Claim C6. For two distinct commodities with no price recorded in either direction
  (and no factor already cached for the pair and date), the conversion raises
  \<open>PriceNotFoundError\<close> naming the two commodities; it returns no factor at all, so
  neither zero nor one.
\<close>

theorem no_price_raises:
  assumes "com \<noteq> currency"
    and "prices_filter_by prices com currency = []"
    and "prices_filter_by prices currency com = []"
    and "cache_lookup cache (com, currency) on_date = None"
  shows "currency_conversion_on_date prices com currency on_date cache
           = Inl (PriceNotFoundError (Cannot_convert com currency))
         \<and> currency_conversion_on_date prices com currency on_date cache \<noteq> Inr (0, cache)
         \<and> currency_conversion_on_date prices com currency on_date cache \<noteq> Inr (1, cache)"
  using assms by (simp add: currency_conversion_on_date_def closest_def)

theorem no_price_raises_witness:
  "currency_conversion_on_date [] (Commodity ''USD'') (Commodity ''EUR'') 738000 None
     = Inl (PriceNotFoundError (Cannot_convert (Commodity ''USD'') (Commodity ''EUR'')))"
  using no_price_raises [of "Commodity ''USD''" "Commodity ''EUR''" "[]" None 738000]
  by (simp add: prices_filter_by_def cache_lookup_def)

text \<open>
  Claim C4. For two distinct commodities with prices recorded in both directions (and
  no factor already cached), let \<open>f\<close> be the forward price and \<open>r\<close> the reverse
  price that \<open>min\<close> selects; each is at least absolute distance from the query date
  within its set. The factor is the value of \<open>f\<close> when the distance of \<open>f\<close> is at most
  the distance of \<open>r\<close>, so also on a tie, and otherwise \<open>1 / value r\<close> as Python
  computes it (a zero divisor raises). A supplied cache receives the factor.
\<close>

theorem both_directions_closest:
  assumes "com \<noteq> currency"
    and "cache_lookup cache (com, currency) on_date = None"
    and "prices_filter_by prices com currency \<noteq> []"
    and "prices_filter_by prices currency com \<noteq> []"
  shows "\<exists>f r.
           closest on_date (prices_filter_by prices com currency) = Some f
         \<and> closest on_date (prices_filter_by prices currency com) = Some r
         \<and> f \<in> set (prices_filter_by prices com currency)
         \<and> (\<forall>p \<in> set (prices_filter_by prices com currency).
               \<bar>p_date f - on_date\<bar> \<le> \<bar>p_date p - on_date\<bar>)
         \<and> r \<in> set (prices_filter_by prices currency com)
         \<and> (\<forall>p \<in> set (prices_filter_by prices currency com).
               \<bar>p_date r - on_date\<bar> \<le> \<bar>p_date p - on_date\<bar>)
         \<and> currency_conversion_on_date prices com currency on_date cache
             = (if \<bar>p_date f - on_date\<bar> \<le> \<bar>p_date r - on_date\<bar>
                then Inr (p_value f,
                       map_option (\<lambda>c. cache_store c (com, currency) on_date (p_value f)) cache)
                else if p_value r = 0 then Inl ZeroDivisionError
                else Inr (1 / p_value r,
                       map_option (\<lambda>c. cache_store c (com, currency) on_date (1 / p_value r)) cache))"
proof -
  from assms(3) obtain f where f: "closest on_date (prices_filter_by prices com currency) = Some f"
    using closest_None [of on_date "prices_filter_by prices com currency"] by (cases "closest on_date (prices_filter_by prices com currency)") auto
  from assms(4) obtain r where r: "closest on_date (prices_filter_by prices currency com) = Some r"
    using closest_None [of on_date "prices_filter_by prices currency com"] by (cases "closest on_date (prices_filter_by prices currency com)") auto
  have res: "currency_conversion_on_date prices com currency on_date cache
             = (if \<bar>p_date f - on_date\<bar> \<le> \<bar>p_date r - on_date\<bar>
                then Inr (p_value f,
                       map_option (\<lambda>c. cache_store c (com, currency) on_date (p_value f)) cache)
                else if p_value r = 0 then Inl ZeroDivisionError
                else Inr (1 / p_value r,
                       map_option (\<lambda>c. cache_store c (com, currency) on_date (1 / p_value r)) cache))"
    using assms(1,2) f r by (simp add: currency_conversion_on_date_def py_div_def)
  show ?thesis
    using f r res closest_mem [OF f] closest_mem [OF r] closest_least [OF f] closest_least [OF r]
    by blast
qed

theorem both_directions_closest_witness:
  "currency_conversion_on_date
     [\<lparr>p_commodity = Commodity ''USD'', p_currency = Commodity ''EUR'', p_date = 10, p_value = 9 / 10\<rparr>,
      \<lparr>p_commodity = Commodity ''EUR'', p_currency = Commodity ''USD'', p_date = 16, p_value = 5 / 4\<rparr>]
     (Commodity ''USD'') (Commodity ''EUR'') 13 None
   = Inr (9 / 10, None)"
proof -
  let ?usd = "Commodity ''USD''" and ?eur = "Commodity ''EUR''"
  let ?fw = "\<lparr>p_commodity = ?usd, p_currency = ?eur, p_date = 10, p_value = 9 / 10\<rparr>"
  let ?rv = "\<lparr>p_commodity = ?eur, p_currency = ?usd, p_date = 16, p_value = 5 / 4\<rparr>"
  have fw: "prices_filter_by [?fw, ?rv] ?usd ?eur = [?fw]"
    and rv: "prices_filter_by [?fw, ?rv] ?eur ?usd = [?rv]"
    by (simp_all add: prices_filter_by_def)
  have h: "?usd \<noteq> ?eur" "cache_lookup None (?usd, ?eur) 13 = None"
    "prices_filter_by [?fw, ?rv] ?usd ?eur \<noteq> []" "prices_filter_by [?fw, ?rv] ?eur ?usd \<noteq> []"
    by (simp_all add: fw rv cache_lookup_def)
  from both_directions_closest [OF h] show ?thesis
    by (simp add: fw rv closest_def)
qed

text \<open>
  Claim C7. When a first call with a cache returns the factor \<open>f\<close> and leaves the cache
  \<open>cache'\<close>, a second call with the same arguments and that cache returns \<open>f\<close> again
  and leaves the cache as it is, whatever the price table holds: its result does not
  depend on any price, so no price search contributes to it. For two distinct
  commodities the factor is the entry which the first call left under the ordered pair
  and the date.
\<close>

theorem second_call_answered_from_cache:
  assumes "currency_conversion_on_date prices com currency on_date (Some cache) = Inr (f, cache')"
  shows "(\<forall>prices'. currency_conversion_on_date prices' com currency on_date cache' = Inr (f, cache'))
         \<and> (com \<noteq> currency \<longrightarrow> cache_lookup cache' (com, currency) on_date = Some f)"
proof (cases "com = currency")
  case True
  with assms show ?thesis by (simp add: currency_conversion_on_date_def)
next
  case False
  show ?thesis
  proof (cases "cache_lookup (Some cache) (com, currency) on_date")
    case (Some v)
    with assms False have "f = v" "cache' = Some cache"
      by (simp_all add: currency_conversion_on_date_def)
    with Some False show ?thesis by (simp add: currency_conversion_on_date_def)
  next
    case None
    with assms False have c': "cache' = Some (cache_store cache (com, currency) on_date f)"
      by (auto simp: currency_conversion_on_date_def Let_def split: sum.splits)
    have "cache_lookup cache' (com, currency) on_date = Some f"
      by (simp add: c' cache_lookup_def cache_store_def)
    with False show ?thesis by (simp add: currency_conversion_on_date_def)
  qed
qed

theorem second_call_answered_from_cache_witness:
  "currency_conversion_on_date []
     (Commodity ''USD'') (Commodity ''EUR'') 13
     (Some (cache_store (\<lambda>_. None) (Commodity ''USD'', Commodity ''EUR'') 13 (9 / 10)))
   = Inr (9 / 10, Some (cache_store (\<lambda>_. None) (Commodity ''USD'', Commodity ''EUR'') 13 (9 / 10)))
   \<and> cache_lookup (Some (cache_store (\<lambda>_. None) (Commodity ''USD'', Commodity ''EUR'') 13 (9 / 10)))
        (Commodity ''USD'', Commodity ''EUR'') 13 = Some (9 / 10)"
proof -
  let ?usd = "Commodity ''USD''" and ?eur = "Commodity ''EUR''"
  let ?fw = "\<lparr>p_commodity = ?usd, p_currency = ?eur, p_date = 10, p_value = 9 / 10\<rparr>"
  have fw: "prices_filter_by [?fw] ?usd ?eur = [?fw]"
    and rv: "prices_filter_by [?fw] ?eur ?usd = []"
    by (simp_all add: prices_filter_by_def)
  have first: "currency_conversion_on_date [?fw] ?usd ?eur 13 (Some (\<lambda>_. None))
                 = Inr (9 / 10, Some (cache_store (\<lambda>_. None) (?usd, ?eur) 13 (9 / 10)))"
    by (simp add: currency_conversion_on_date_def fw rv closest_def cache_lookup_def)
  from second_call_answered_from_cache [OF first] show ?thesis by simp
qed

section \<open>The cache does not change a balance\<close>

lemma cache_consistent_None: "cache_consistent P None"
  by (simp add: cache_consistent_def cache_lookup_def)

lemma cache_consistent_empty: "cache_consistent P (Some Map.empty)"
  by (simp add: cache_consistent_def cache_lookup_def)

lemma cache_lookup_store:
  "cache_lookup (Some (cache_store c pair d v)) pair' d' =
     (if pair' = pair \<and> d' = d then Some v else cache_lookup (Some c) pair' d')"
  by (simp add: cache_lookup_def cache_store_def split: option.splits)

lemma ccod_unfold:
  "currency_conversion_on_date P com cur d co =
     (if com = cur then Inr (1, co)
      else case cache_lookup co (com, cur) d of
             Some v \<Rightarrow> Inr (v, co)
           | None \<Rightarrow>
               (case outcome (currency_conversion_on_date P com cur d None) of
                  Inl e \<Rightarrow> Inl e
                | Inr v \<Rightarrow> Inr (v, map_option (\<lambda>c. cache_store c (com, cur) d v) co)))"
  by (simp add: currency_conversion_on_date_def Let_def outcome_def cache_lookup_def
           split: sum.splits option.splits)

lemma ccod_plain:
  "currency_conversion_on_date P com cur d None = Inr (v, co') \<Longrightarrow> co' = None"
  by (auto simp: currency_conversion_on_date_def Let_def cache_lookup_def split: sum.splits if_splits)

lemma ccod_outcome:
  assumes "cache_consistent P co"
  shows "outcome (currency_conversion_on_date P com cur d co)
           = outcome (currency_conversion_on_date P com cur d None)"
proof (cases "com = cur")
  case True
  then show ?thesis by (simp add: currency_conversion_on_date_def outcome_def)
next
  case False
  show ?thesis
  proof (cases "cache_lookup co (com, cur) d")
    case None
    with False show ?thesis
      by (subst ccod_unfold) (simp add: outcome_def split: sum.splits)
  next
    case (Some v)
    with assms False have "currency_conversion_on_date P com cur d None = Inr (v, None)"
      by (simp add: cache_consistent_def)
    moreover from Some False have "currency_conversion_on_date P com cur d co = Inr (v, co)"
      by (subst ccod_unfold) simp
    ultimately show ?thesis by (simp add: outcome_def)
  qed
qed

lemma ccod_cache:
  assumes "cache_consistent P co"
    and "currency_conversion_on_date P com cur d co = Inr (v, co')"
  shows "cache_consistent P co'"
proof (cases "com = cur \<or> cache_lookup co (com, cur) d \<noteq> None")
  case True
  with assms(2) have "co' = co"
    by (subst (asm) ccod_unfold) (auto split: if_splits)
  with assms(1) show ?thesis by simp
next
  case False
  then have ne: "com \<noteq> cur" and miss: "cache_lookup co (com, cur) d = None" by auto
  from assms(2) have "outcome (currency_conversion_on_date P com cur d co) = Inr v"
    by (simp add: outcome_def)
  then have "outcome (currency_conversion_on_date P com cur d None) = Inr v"
    using ccod_outcome [OF assms(1)] by simp
  then have plain: "currency_conversion_on_date P com cur d None = Inr (v, None)"
    using ccod_plain [of P com cur d]
    by (cases "currency_conversion_on_date P com cur d None") (auto simp: outcome_def)
  from assms(2) ne miss plain have co': "co' = map_option (\<lambda>c. cache_store c (com, cur) d v) co"
    by (subst (asm) ccod_unfold) (simp add: outcome_def)
  show ?thesis
  proof (cases co)
    case None
    with co' show ?thesis by (simp add: cache_consistent_None)
  next
    case (Some c)
    show ?thesis
      unfolding cache_consistent_def co' Some option.map cache_lookup_store
      using assms(1) plain Some by (auto simp: cache_consistent_def)
  qed
qed

lemma convert_balance_no_date:
  "outcome (convert_balance P cc a par c None co b) = convert_pure P cc a par c None b
   \<and> (\<forall>v co'. convert_balance P cc a par c None co b = Inr (v, co') \<longrightarrow> co' = co)"
  by (auto simp: convert_balance_def convert_pure_def resolve_def outcome_def Let_def
           split: sum.splits option.splits)

lemma ccod_result:
  assumes "cache_consistent P K"
  obtains (fails) e where "currency_conversion_on_date P x y d K = Inl e"
      and "outcome (currency_conversion_on_date P x y d None) = Inl e"
  | (returns) f K' where "currency_conversion_on_date P x y d K = Inr (f, K')"
      and "outcome (currency_conversion_on_date P x y d None) = Inr f"
      and "cache_consistent P K'"
proof (cases "currency_conversion_on_date P x y d K")
  case (Inl e)
  with ccod_outcome [OF assms, of x y d] have "outcome (currency_conversion_on_date P x y d None) = Inl e"
    by (simp add: outcome_def)
  with Inl show ?thesis by (rule fails)
next
  case (Inr r)
  obtain f K' where r: "r = (f, K')" by (cases r)
  with Inr ccod_outcome [OF assms, of x y d]
  have "outcome (currency_conversion_on_date P x y d None) = Inr f"
    by (simp add: outcome_def)
  moreover from Inr r assms have "cache_consistent P K'" by (auto intro: ccod_cache)
  ultimately show ?thesis using Inr r by (auto intro: returns)
qed

lemma convert_balance_date:
  assumes "cache_consistent P co"
  shows "outcome (convert_balance P cc a par c (Some d) co b) = convert_pure P cc a par c (Some d) b
   \<and> (\<forall>v co'. convert_balance P cc a par c (Some d) co b = Inr (v, co') \<longrightarrow> cache_consistent P co')"
proof (cases "c = acc_commodity a")
  case True
  with assms show ?thesis
    by (simp add: convert_balance_def convert_pure_def outcome_def)
next
  case ne: False
  define K where "K = (case co of None \<Rightarrow> Some Map.empty | Some c \<Rightarrow> Some c)"
  have K: "cache_consistent P K"
    using assms by (cases co) (simp_all add: K_def cache_consistent_empty)
  note defs = convert_balance_def convert_pure_def resolve_def Let_def K_def [symmetric]
  show ?thesis
  using K
  proof (cases rule: ccod_result [where x = "acc_commodity a" and y = c and d = d])
    case (returns f K')
    with ne show ?thesis by (simp add: defs outcome_def)
  next
    case direct: (fails e)
    show ?thesis
    proof (cases "caught e")
      case False
      with ne direct show ?thesis by (simp add: defs outcome_def)
    next
      case ce: True
      show ?thesis
      proof (cases par)
        case None
        with ne direct ce show ?thesis by (simp add: defs outcome_def)
      next
        case (Some p)
        show ?thesis
        using K
        proof (cases rule: ccod_result [where x = "acc_commodity a" and y = "acc_commodity p" and d = d])
          case (fails e1)
          with ne direct ce Some show ?thesis by (simp add: defs outcome_def)
        next
          case hop1: (returns f1 K1)
          show ?thesis
          using hop1(3)
          proof (cases rule: ccod_result [where x = "acc_commodity p" and y = c and d = d])
            case (fails e2)
            with ne direct ce Some hop1 show ?thesis by (simp add: defs outcome_def)
          next
            case (returns f2 K2)
            with ne direct ce Some hop1 show ?thesis by (simp add: defs outcome_def)
          qed
        qed
      qed
    qed
  qed
qed

lemma convert_balance_pure:
  assumes "cache_consistent P co"
  shows "outcome (convert_balance P cc a par c at_date co b) = convert_pure P cc a par c at_date b"
  using assms convert_balance_no_date convert_balance_date by (cases at_date) auto

lemma convert_balance_cache:
  assumes "cache_consistent P co" and "convert_balance P cc a par c at_date co b = Inr (v, co')"
  shows "cache_consistent P co'"
  using assms convert_balance_no_date [of P cc a par c co b] convert_balance_date [of P co cc a par c _ b]
  by (cases at_date) auto

lemma children_sum_outcome:
  assumes "\<And>ch. ch \<in> set chs \<Longrightarrow> cache_free P cc ch"
    and "cache_consistent P co"
  shows "outcome (children_sum P cc chs a c d co s)
           = sum_results s (map (\<lambda>ch. outcome (get_historical_balance P cc ch (Some a) True (Some c) False d None)) chs)
         \<and> (\<forall>v co'. children_sum P cc chs a c d co s = Inr (v, co') \<longrightarrow> cache_consistent P co')"
  using assms
proof (induction chs arbitrary: co s)
  case Nil
  then show ?case by (simp add: outcome_def)
next
  case (Cons ch chs)
  from Cons.prems have cf: "cache_free P cc ch" by simp
  let ?call = "get_historical_balance P cc ch (Some a) True (Some c) False d"
  from cf Cons.prems(2) have eq: "outcome (?call co) = outcome (?call None)"
    and keep: "\<And>v co'. ?call co = Inr (v, co') \<Longrightarrow> cache_consistent P co'"
    unfolding cache_free_def by blast+
  show ?case
  proof (cases "?call co")
    case (Inl e)
    with eq have "outcome (?call None) = Inl e" by (simp add: outcome_def)
    with Inl show ?thesis by (simp add: outcome_def)
  next
    case (Inr r)
    obtain b co1 where r: "r = (b, co1)" by (cases r)
    with Inr eq have pure: "outcome (?call None) = Inr b" by (simp add: outcome_def)
    from Inr r keep have "cache_consistent P co1" by simp
    with Cons.IH [of co1 "s + b"] Cons.prems(1)
    have "outcome (children_sum P cc chs a c d co1 (s + b))
           = sum_results (s + b) (map (\<lambda>ch. outcome (get_historical_balance P cc ch (Some a) True (Some c) False d None)) chs)
         \<and> (\<forall>v co'. children_sum P cc chs a c d co1 (s + b) = Inr (v, co') \<longrightarrow> cache_consistent P co')"
      by simp
    with Inr r pure show ?thesis by simp
  qed
qed

lemma ghb_step:
  assumes kids: "\<And>ch. ch \<in> set (acc_children a) \<Longrightarrow> cache_free P cc ch"
    and co: "cache_consistent P co"
  shows "outcome (get_historical_balance P cc a par recurse commodity ns d co)
           = balance_pure P cc a par recurse commodity ns d
         \<and> (\<forall>v co'. get_historical_balance P cc a par recurse commodity ns d co = Inr (v, co')
               \<longrightarrow> cache_consistent P co')"
proof -
  obtain nm com sg sps chs where a: "a = Account nm com sg sps chs" by (cases a)
  define c1 where "c1 = (case commodity of None \<Rightarrow> com | Some c \<Rightarrow> c)"
  define b where "b = own_quantity sps d"
  note defs = a balance_pure_def Let_def c1_def b_def
  have conv: "outcome (convert_balance P cc a par c1 d co b) = convert_pure P cc a par c1 d b"
    using co by (rule convert_balance_pure)
  show ?thesis
  proof (cases "convert_balance P cc a par c1 d co b")
    case (Inl e)
    with conv have "convert_pure P cc a par c1 d b = Inl e" by (simp add: outcome_def)
    with Inl show ?thesis by (cases commodity) (simp_all add: defs outcome_def)
  next
    case (Inr r)
    obtain b1 k1 where r: "r = (b1, k1)" by (cases r)
    with Inr conv have pure: "convert_pure P cc a par c1 d b = Inr b1" by (simp add: outcome_def)
    from Inr r co have k1: "cache_consistent P k1" by (auto intro: convert_balance_cache)
    show ?thesis
    proof (cases "recurse \<and> chs \<noteq> []")
      case False
      with Inr r pure k1 show ?thesis
        by (cases commodity; cases co) (auto simp: defs outcome_def cache_consistent_None)
    next
      case True
      from children_sum_outcome [of chs P cc k1 a c1 d 0] kids k1 a
      have cs: "outcome (children_sum P cc chs a c1 d k1 0)
           = sum_results 0 (map (\<lambda>ch. outcome (get_historical_balance P cc ch (Some a) True (Some c1) False d None)) chs)"
        and ck: "\<And>v co'. children_sum P cc chs a c1 d k1 0 = Inr (v, co') \<Longrightarrow> cache_consistent P co'"
        by auto
      show ?thesis
      proof (cases "children_sum P cc chs a c1 d k1 0")
        case (Inl e)
        with cs have "sum_results 0 (map (\<lambda>ch. outcome (get_historical_balance P cc ch (Some a) True (Some c1) False d None)) chs) = Inl e"
          by (simp add: outcome_def)
        with Inl Inr r pure True show ?thesis
          by (cases commodity) (simp_all add: defs outcome_def)
      next
        case kidsr: (Inr r2)
        obtain s k2 where r2: "r2 = (s, k2)" by (cases r2)
        with kidsr cs have "sum_results 0 (map (\<lambda>ch. outcome (get_historical_balance P cc ch (Some a) True (Some c1) False d None)) chs) = Inr s"
          by (simp add: outcome_def)
        moreover from kidsr r2 ck have "cache_consistent P k2" by simp
        ultimately show ?thesis
          using kidsr r2 Inr r pure True
          by (cases commodity; cases co) (auto simp: defs outcome_def cache_consistent_None)
      qed
    qed
  qed
qed

lemma cache_free_all: "cache_free P cc a"
proof (induction a)
  case (Account nm com sg sps chs)
  then have kids: "\<And>ch. ch \<in> set (acc_children (Account nm com sg sps chs)) \<Longrightarrow> cache_free P cc ch"
    by simp
  show ?case
    unfolding cache_free_def
    using ghb_step [OF kids] ghb_step [OF kids cache_consistent_None]
    by (metis (no_types, lifting))
qed

lemma ghb_outcome:
  "outcome (get_historical_balance P cc a par recurse commodity ns d None)
     = balance_pure P cc a par recurse commodity ns d"
  using ghb_step [OF cache_free_all cache_consistent_None] by blast

section \<open>Properties of the historical balance\<close>

text \<open>
  Claim C2, as stated: the balance with \<open>recurse=True\<close> (and the natural sign) is the
  balance with \<open>recurse=False\<close> plus the sum of the children's balances with
  \<open>recurse=True\<close> and \<open>natural_sign=False\<close>. It fails on an account of sign \<open>-1\<close>:
  for \<open>Liabilities\<close> with no split of its own and the child \<open>Loan\<close> holding 5, the
  left side is \<open>(0 + 5) * -1 = -5\<close> and the right side is \<open>0 * -1 + 5 = 5\<close>.
\<close>

theorem recursive_balance_counterexample:
  "outcome (get_historical_balance [] no_latest liabilities None True (Some (Commodity ''EUR'')) True (Some 10) None)
     = Inr (- 5)
   \<and> add_results
       (outcome (get_historical_balance [] no_latest liabilities None False (Some (Commodity ''EUR'')) True (Some 10) None))
       (sum_results 0
          [outcome (get_historical_balance [] no_latest loan (Some liabilities) True
                      (Some (Commodity ''EUR'')) False (Some 10) None)])
     = Inr 5"
  by (simp add: liabilities_def loan_def outcome_def add_results_def convert_balance_def own_quantity_def)

text \<open>
  Claim C2, amended. The natural sign multiplies the whole sum: for every account, date
  and target commodity, the balance with \<open>recurse=True\<close> and the natural sign is the
  balance with \<open>recurse=False\<close> and the natural sign plus the account's sign times the
  sum of the children's balances (\<open>recurse=True\<close>, \<open>natural_sign=False\<close>); with
  \<open>natural_sign=False\<close> on the account itself the equation holds as the claim
  writes it. Exceptions agree on both sides: the first one raised, the account's own
  conversion before its children in their order.
\<close>

theorem recursive_balance:
  "outcome (get_historical_balance P cc a par True (Some c) True at_date None)
     = add_results
         (outcome (get_historical_balance P cc a par False (Some c) True at_date None))
         (map_sum id (\<lambda>s. of_int (acc_sign a) * s)
            (sum_results 0
               (map (\<lambda>child. outcome (get_historical_balance P cc child (Some a) True (Some c) False at_date None))
                  (acc_children a))))
   \<and> outcome (get_historical_balance P cc a par True (Some c) False at_date None)
     = add_results
         (outcome (get_historical_balance P cc a par False (Some c) False at_date None))
         (sum_results 0
            (map (\<lambda>child. outcome (get_historical_balance P cc child (Some a) True (Some c) False at_date None))
               (acc_children a)))"
proof (cases "acc_children a")
  case Nil
  then show ?thesis
    by (simp add: ghb_outcome balance_pure_def add_results_def split: sum.splits)
next
  case (Cons ch chs)
  then show ?thesis
    by (simp add: ghb_outcome balance_pure_def add_results_def algebra_simps split: sum.splits)
qed

lemma ghb_own:
  "outcome (get_historical_balance P cc a par False (Some c) ns at_date None)
     = (case convert_pure P cc a par c at_date (own_quantity (acc_splits a) at_date) of
          Inl e \<Rightarrow> Inl e
        | Inr b \<Rightarrow> Inr (if ns then b * of_int (acc_sign a) else b))"
  by (simp add: ghb_outcome balance_pure_def split: sum.splits)

lemma ghb_convert_fails:
  "convert_pure P cc a par (case commodity of None \<Rightarrow> acc_commodity a | Some c \<Rightarrow> c) at_date
      (own_quantity (acc_splits a) at_date) = Inl e
   \<Longrightarrow> outcome (get_historical_balance P cc a par recurse commodity ns at_date None) = Inl e"
  by (simp add: ghb_outcome balance_pure_def)

lemma usd_gbp_eur_filter:
  "prices_filter_by usd_gbp_eur_prices (Commodity ''USD'') (Commodity ''EUR'') = []"
  "prices_filter_by usd_gbp_eur_prices (Commodity ''EUR'') (Commodity ''USD'') = []"
  "prices_filter_by usd_gbp_eur_prices (Commodity ''USD'') (Commodity ''GBP'')
     = [\<lparr>p_commodity = Commodity ''USD'', p_currency = Commodity ''GBP'', p_date = 20, p_value = 4 / 5\<rparr>]"
  "prices_filter_by usd_gbp_eur_prices (Commodity ''GBP'') (Commodity ''USD'') = []"
  "prices_filter_by usd_gbp_eur_prices (Commodity ''GBP'') (Commodity ''EUR'')
     = [\<lparr>p_commodity = Commodity ''GBP'', p_currency = Commodity ''EUR'', p_date = 20, p_value = 23 / 20\<rparr>]"
  "prices_filter_by usd_gbp_eur_prices (Commodity ''EUR'') (Commodity ''GBP'') = []"
  by (simp_all add: prices_filter_by_def usd_gbp_eur_prices_def)

text \<open>
  Claim C3. Take an account with a parent, a target commodity other than the account's
  and a date at which the direct resolution from the account's commodity to the target
  raises \<open>PriceNotFoundError\<close>. Then the account's own balance is its quantity times
  the product of the factor from its commodity to the parent's commodity and the
  factor from the parent's commodity to the target, both resolved at that date. When
  the first hop raises \<open>PriceNotFoundError\<close>, or the first returns and the second
  raises it, the whole computation (with or without recursion) raises that
  \<open>PriceNotFoundError\<close>.
\<close>

theorem two_hop_conversion:
  assumes "c \<noteq> acc_commodity a"
    and "outcome (currency_conversion_on_date P (acc_commodity a) c d None) = Inl (PriceNotFoundError m)"
  shows "outcome (get_historical_balance P cc a (Some par) False (Some c) ns (Some d) None)
           = (case outcome (currency_conversion_on_date P (acc_commodity a) (acc_commodity par) d None) of
                Inl e1 \<Rightarrow> Inl e1
              | Inr factor1 \<Rightarrow>
                  (case outcome (currency_conversion_on_date P (acc_commodity par) c d None) of
                     Inl e2 \<Rightarrow> Inl e2
                   | Inr factor2 \<Rightarrow>
                       Inr (if ns
                            then own_quantity (acc_splits a) (Some d) * (factor1 * factor2) * of_int (acc_sign a)
                            else own_quantity (acc_splits a) (Some d) * (factor1 * factor2))))
         \<and> (\<forall>recurse m1.
               outcome (currency_conversion_on_date P (acc_commodity a) (acc_commodity par) d None)
                 = Inl (PriceNotFoundError m1)
               \<longrightarrow> outcome (get_historical_balance P cc a (Some par) recurse (Some c) ns (Some d) None)
                     = Inl (PriceNotFoundError m1))
         \<and> (\<forall>recurse factor1 m2.
               outcome (currency_conversion_on_date P (acc_commodity a) (acc_commodity par) d None)
                 = Inr factor1
               \<and> outcome (currency_conversion_on_date P (acc_commodity par) c d None)
                 = Inl (PriceNotFoundError m2)
               \<longrightarrow> outcome (get_historical_balance P cc a (Some par) recurse (Some c) ns (Some d) None)
                     = Inl (PriceNotFoundError m2))"
proof -
  have conv: "convert_pure P cc a (Some par) c (Some d) b
           = (case outcome (currency_conversion_on_date P (acc_commodity a) (acc_commodity par) d None) of
                Inl e1 \<Rightarrow> Inl e1
              | Inr factor1 \<Rightarrow>
                  (case outcome (currency_conversion_on_date P (acc_commodity par) c d None) of
                     Inl e2 \<Rightarrow> Inl e2
                   | Inr factor2 \<Rightarrow> Inr (b * (factor1 * factor2))))" for b
    using assms by (simp add: convert_pure_def resolve_def split: sum.splits)
  show ?thesis
    using ghb_convert_fails [of P cc a "Some par" "Some c" "Some d"]
    by (auto simp: ghb_own conv split: sum.splits)
qed

theorem two_hop_conversion_witness:
  "outcome (get_historical_balance usd_gbp_eur_prices no_latest current_account (Some bank) False
              (Some (Commodity ''EUR'')) False (Some 20) None) = Inr 92"
proof -
  have direct: "outcome (currency_conversion_on_date usd_gbp_eur_prices (acc_commodity current_account)
                  (Commodity ''EUR'') 20 None)
                = Inl (PriceNotFoundError (Cannot_convert (Commodity ''USD'') (Commodity ''EUR'')))"
    by (simp add: currency_conversion_on_date_def usd_gbp_eur_filter closest_def cache_lookup_def
          outcome_def current_account_def)
  have ne: "Commodity ''EUR'' \<noteq> acc_commodity current_account" by (simp add: current_account_def)
  have hop1: "outcome (currency_conversion_on_date usd_gbp_eur_prices (acc_commodity current_account)
                  (acc_commodity bank) 20 None) = Inr (4 / 5)"
    by (simp add: currency_conversion_on_date_def usd_gbp_eur_filter closest_def cache_lookup_def
          outcome_def current_account_def bank_def)
  have hop2: "outcome (currency_conversion_on_date usd_gbp_eur_prices (acc_commodity bank)
                  (Commodity ''EUR'') 20 None) = Inr (23 / 20)"
    by (simp add: currency_conversion_on_date_def usd_gbp_eur_filter closest_def cache_lookup_def
          outcome_def bank_def)
  from two_hop_conversion [OF ne direct, of no_latest bank False]
  have "outcome (get_historical_balance usd_gbp_eur_prices no_latest current_account (Some bank) False
              (Some (Commodity ''EUR'')) False (Some 20) None)
          = Inr (own_quantity (acc_splits current_account) (Some 20) * (4 / 5 * (23 / 20)))"
    by (simp add: hop1 hop2)
  also have "own_quantity (acc_splits current_account) (Some 20) = 100"
    by (simp add: own_quantity_def current_account_def)
  finally show ?thesis by simp
qed

section \<open>Properties of the ECB rate range\<close>

lemma rate_range_loop_dates:
  assumes "rate_range_loop strptime to_float cubes start_date end_date to_currency from_currency
             exclude_dates results warnings = Inr (results', warnings')"
    and "results' d = Some r"
  shows "results d = Some r \<or> (start_date < d \<and> d \<le> end_date \<and> d \<notin> exclude_dates)"
  using assms
proof (induction cubes arbitrary: results warnings)
  case Nil
  then show ?case by simp
next
  case (Cons date_cube cubes)
  from Cons.prems(1) obtain t date' where t: "attrib_get date_cube ''time'' = Inr t"
    and parsed: "strptime t = Inr date'"
    by (auto split: sum.splits)
  show ?case
  proof (cases "(start_date < date' \<and> date' \<le> end_date) \<and> \<not> (date' \<in> exclude_dates)")
    case False
    with Cons.prems t parsed
    have "rate_range_loop strptime to_float cubes start_date end_date to_currency from_currency
             exclude_dates results warnings = Inr (results', warnings')"
      by auto
    from Cons.IH [OF this Cons.prems(2)] show ?thesis .
  next
    case True
    show ?thesis
    proof (cases "ecb_fx_rate to_float date_cube to_currency from_currency")
      case (Inr rate)
      with Cons.prems t parsed True
      have "rate_range_loop strptime to_float cubes start_date end_date to_currency from_currency
             exclude_dates (results(date' \<mapsto> rate)) warnings = Inr (results', warnings')"
        by simp
      from Cons.IH [OF this Cons.prems(2)] True show ?thesis
        by (auto split: if_splits)
    next
      case (Inl e)
      with Cons.prems t parsed True obtain m where
        "rate_range_loop strptime to_float cubes start_date end_date to_currency from_currency
             exclude_dates results (warnings @ [m]) = Inr (results', warnings')"
        by (cases e) auto
      from Cons.IH [OF this Cons.prems(2)] show ?thesis .
    qed
  qed
qed

text \<open>
  Claim C10. Whatever the rate file holds, every date of the returned mapping is
  strictly after \<open>start_date\<close> and at most \<open>end_date\<close>; the mapping has no entry
  for \<open>start_date\<close> itself, even when the file has a rate for that date.
\<close>

theorem rate_range_excludes_start:
  assumes "ecb_fx_rate_range strptime to_float xml_root start_date end_date to_currency
             from_currency exclude_dates = Inr (results, warnings)"
  shows "(\<forall>d \<in> dom results. start_date < d \<and> d \<le> end_date) \<and> results start_date = None"
proof -
  have *: "start_date < d \<and> d \<le> end_date" if "results d = Some r" for d r
  proof -
    from assms obtain top_cube where
      "rate_range_loop strptime to_float (findall top_cube ecb_Cube) start_date end_date
         to_currency from_currency (case exclude_dates of None \<Rightarrow> {} | Some s \<Rightarrow> s) Map.empty []
       = Inr (results, warnings)"
      by (auto simp: ecb_fx_rate_range_def split: option.splits)
    from rate_range_loop_dates [OF this that] show ?thesis by simp
  qed
  then have "results start_date = None"
    by (cases "results start_date") auto
  with * show ?thesis by auto
qed

lemma rate_file_cubes:
  "find_first rate_file ecb_Cube
     = Some (Element ecb_Cube [] [day_cube ''2019-01-02'' ''1.25'', day_cube ''2019-01-01'' ''1.5''])"
  "findall (Element ecb_Cube [] [day_cube ''2019-01-02'' ''1.25'', day_cube ''2019-01-01'' ''1.5'']) ecb_Cube
     = [day_cube ''2019-01-02'' ''1.25'', day_cube ''2019-01-01'' ''1.5'']"
  by (simp_all add: find_first_def findall_def rate_file_def day_cube_def)

lemma day_cube_rate:
  "attrib_get (day_cube t r) ''time'' = Inr t"
  "ecb_fx_rate to_float (day_cube t r) ''USD'' ''EUR'' = to_float r"
  by (simp_all add: day_cube_def attrib_get_def ecb_fx_rate_def ecb_fx_rate_from_eur_def
        findall_descendants_def)

lemma rate_file_range:
  "ecb_fx_rate_range strptime_2019 to_float_2019 rate_file 737060 737425 ''USD'' ''EUR'' None
     = Inr ([737061 \<mapsto> 5 / 4], [])"
  by (simp add: ecb_fx_rate_range_def rate_file_cubes day_cube_rate strptime_2019_def to_float_2019_def)

theorem rate_range_excludes_start_witness:
  "fst (projr (ecb_fx_rate_range strptime_2019 to_float_2019 rate_file 737060 737425 ''USD'' ''EUR'' None))
     737060 = None
   \<and> fst (projr (ecb_fx_rate_range strptime_2019 to_float_2019 rate_file 737060 737425 ''USD'' ''EUR'' None))
     737061 = Some (5 / 4)"
  using rate_range_excludes_start [OF rate_file_range] by (simp add: rate_file_range)

section \<open>Properties of the aggregation layer\<close>

lemma split_example: "split_on CHR '':'' ''Bank:Checking'' = [''Bank'', ''Checking'']"
  by simp

lemma get_account_example:
  "get_account bank_book ''Bank:Checking'' = Inr (current_account, Some bank)"
  by (simp add: get_account_def bank_book_def root_account_def children_named_def bank_def current_account_def)

text \<open>
  Claim C1 says that \<open>agg_balance\<close> returns the sum of the accounts' balances computed
  with \<open>natural_sign=False\<close>. The call it makes passes the keyword \<open>via\<close>, which
  \<open>get_historical_balance\<close> does not have: for the one account \<open>Bank:Checking\<close>,
  whose balance in USD at the date is 100, \<open>agg_balance\<close> raises \<open>TypeError\<close> where
  the sum is 100.
\<close>

theorem agg_balance_raises_type_error:
  "agg_balance bank_book no_latest [''Bank:Checking''] (Commodity ''USD'') None (Some 20)
     = Inl TypeError
   \<and> sum_results 0
       [outcome (get_historical_balance (b_prices bank_book) no_latest current_account (Some bank) True
                   (Some (Commodity ''USD'')) False (Some 20) None)]
     = Inr 100"
  by (simp add: agg_balance_def get_account_example call_with_keywords_def
        get_historical_balance_parameters_def outcome_def current_account_def
        convert_balance_def own_quantity_def)

text \<open>So it does on every list whose first name resolves to an account.\<close>

lemma agg_balance_nonempty:
  assumes "get_account book a = Inr (acct, parent)"
  shows "agg_balance book cc (a # names) currency via at_date = Inl TypeError"
  using assms
  by (simp add: agg_balance_def call_with_keywords_def get_historical_balance_parameters_def)

section \<open>Properties of the top-N reducer\<close>

lemma expenses_sorted: "map fst (sort_values_descending expenses) = [''Other'', ''Food'', ''Rent'', ''Fuel'']"
  by (simp add: sort_values_descending_def expenses_def)

lemma expenses_top:
  "select expenses (slice_to [''Other'', ''Food'', ''Rent'', ''Fuel''] 2) = [(''Other'', 500), (''Food'', 300)]"
  "select expenses (slice_from [''Other'', ''Food'', ''Rent'', ''Fuel''] 2) = [(''Rent'', 200), (''Fuel'', 10)]"
  by (simp_all add: select_def slice_to_def slice_from_def expenses_def)

lemma expenses_reduced:
  "top_and_other (Series expenses) 2 = Series [(''Other'', 210), (''Food'', 300)]"
  by (simp add: top_and_other_def expenses_sorted expenses_top set_item_def)

text \<open>
  Claim C9 says that the reduced output has the same total as the input, for each row
  and for a series. A category of the input that is itself called \<open>Other\<close> and ranks
  among the top \<open>top_n\<close> is overwritten by the synthetic one: of the expenses
  \<open>Other 500, Food 300, Rent 200, Fuel 10\<close> with \<open>top_n = 2\<close> the output keeps
  \<open>Other 210, Food 300\<close>, of total 510 where the input has 1010.
\<close>

theorem top_and_other_loses_other:
  "top_and_other (Series expenses) 2 = Series [(''Other'', 210), (''Food'', 300)]
   \<and> row_totals (top_and_other (Series expenses) 2) = [510]
   \<and> row_totals (Series expenses) = [1010]"
  by (simp add: expenses_reduced row_totals_def) (simp add: expenses_def)

text \<open>The same happens to the rows of a table.\<close>

lemma weekly_sorted:
  "map fst (sort_values_descending
      (map (\<lambda>column. (fst column, sum_list (snd column))) (df_columns weekly_expenses)))
     = [''Other'', ''Food'', ''Rent'', ''Fuel'']"
  by (simp add: sort_values_descending_def weekly_expenses_def)

lemma weekly_top:
  "select (df_columns weekly_expenses) (slice_to [''Other'', ''Food'', ''Rent'', ''Fuel''] 2)
     = [(''Other'', [300, 200]), (''Food'', [100, 200])]"
  "select (df_columns weekly_expenses) (slice_from [''Other'', ''Food'', ''Rent'', ''Fuel''] 2)
     = [(''Rent'', [100, 100]), (''Fuel'', [4, 6])]"
  by (simp_all add: select_def slice_to_def slice_from_def weekly_expenses_def)

lemma top_and_other_table:
  "top_and_other (DataFrame weekly_expenses) 2
     = DataFrame \<lparr>df_index = [738000, 738007],
          df_columns = [(''Other'', [104, 106]), (''Food'', [100, 200])]\<rparr>
   \<and> row_totals (DataFrame \<lparr>df_index = [738000, 738007],
          df_columns = [(''Other'', [104, 106]), (''Food'', [100, 200])]\<rparr>) = [204, 306]
   \<and> row_totals (DataFrame weekly_expenses) = [504, 506]"
proof -
  have "top_and_other (DataFrame weekly_expenses) 2
     = DataFrame \<lparr>df_index = [738000, 738007],
          df_columns = [(''Other'', [104, 106]), (''Food'', [100, 200])]\<rparr>"
    by (simp add: top_and_other_def weekly_sorted weekly_top set_item_def row_sums_def)
       (simp add: weekly_expenses_def)
  moreover have "row_totals (DataFrame \<lparr>df_index = [738000, 738007],
          df_columns = [(''Other'', [104, 106]), (''Food'', [100, 200])]\<rparr>) = [204, 306]"
    by (simp add: row_totals_def row_sums_def)
  moreover have "row_totals (DataFrame weekly_expenses) = [504, 506]"
    by (simp add: row_totals_def row_sums_def weekly_expenses_def)
  ultimately show ?thesis by simp
qed

text \<open>
  The totals are preserved whenever the labels are distinct and none of the retained
  top labels is \<open>Other\<close>: the divergence comes from that collision alone.
\<close>

lemma slices_append: "slice_to xs n @ slice_from xs n = xs"
  by (simp add: slice_to_def slice_from_def)

lemma select_append: "select entries (xs @ ys) = select entries xs @ select entries ys"
  by (simp add: select_def)

lemma select_labels: "fst ` set (select entries labels) \<subseteq> set labels"
  by (auto simp: select_def)

lemma sum_by_label:
  assumes "finite A" and "fst ` set s \<subseteq> A"
  shows "(\<Sum>l\<in>A. sum_list (map snd (filter (\<lambda>e. fst e = l) s))) = sum_list (map snd s)"
  using assms(2)
proof (induction s)
  case Nil
  then show ?case by simp
next
  case (Cons e s)
  have "(\<Sum>l\<in>A. sum_list (map snd (filter (\<lambda>x. fst x = l) (e # s))))
          = (\<Sum>l\<in>A. (if fst e = l then snd e else 0) + sum_list (map snd (filter (\<lambda>x. fst x = l) s)))"
    by (rule sum.cong) auto
  also have "\<dots> = (\<Sum>l\<in>A. if fst e = l then snd e else 0)
                   + (\<Sum>l\<in>A. sum_list (map snd (filter (\<lambda>x. fst x = l) s)))"
    by (rule sum.distrib)
  also have "(\<Sum>l\<in>A. if fst e = l then snd e else 0) = snd e"
    using assms(1) Cons.prems by (simp add: sum.delta)
  also have "(\<Sum>l\<in>A. sum_list (map snd (filter (\<lambda>x. fst x = l) s))) = sum_list (map snd s)"
    using Cons by simp
  finally show ?case by simp
qed

lemma sum_list_map_concat:
  "sum_list (map f (concat xss)) = sum_list (map (\<lambda>xs. sum_list (map f xs)) xss)"
  by (induction xss) simp_all

lemma select_total:
  assumes "distinct labels" and "set labels = fst ` set s"
  shows "sum_list (map (snd :: string \<times> real \<Rightarrow> real) (select s labels)) = sum_list (map snd s)"
proof -
  have "sum_list (map snd (select s labels))
          = sum_list (map (\<lambda>l. sum_list (map snd (filter (\<lambda>e. fst e = l) s))) labels)"
    by (simp add: select_def sum_list_map_concat comp_def)
  also have "\<dots> = (\<Sum>l\<in>set labels. sum_list (map snd (filter (\<lambda>e. fst e = l) s)))"
    using assms(1) by (simp add: sum_list_distinct_conv_sum_set)
  also have "\<dots> = sum_list (map snd s)"
    using assms(2) by (intro sum_by_label) auto
  finally show ?thesis .
qed

lemma sorted_labels:
  "set (map fst (sort_values_descending s)) = fst ` set s"
  "distinct (map fst s) \<Longrightarrow> distinct (map fst (sort_values_descending s))"
  by (auto simp: sort_values_descending_def distinct_map)

lemma series_total_preserved:
  assumes "distinct (map fst s)"
    and "''Other'' \<notin> set (slice_to (map fst (sort_values_descending s)) top_n)"
  shows "row_totals (top_and_other (Series s) top_n) = row_totals (Series s)"
proof -
  let ?L = "map fst (sort_values_descending s)"
  let ?T = "slice_to ?L top_n" and ?O = "slice_from ?L top_n"
  from assms(2) select_labels [of s ?T] have "''Other'' \<notin> fst ` set (select s ?T)" by blast
  then have "row_totals (top_and_other (Series s) top_n)
               = [sum_list (map snd (select s ?T)) + sum_list (map snd (select s ?O))]"
    by (simp add: top_and_other_def row_totals_def set_item_def Let_def)
  also have "sum_list (map snd (select s ?T)) + sum_list (map snd (select s ?O))
               = sum_list (map snd (select s (?T @ ?O)))"
    by (simp add: select_append)
  also have "\<dots> = sum_list (map snd s)"
    unfolding slices_append using sorted_labels [of s] assms(1) by (intro select_total) auto
  finally show ?thesis by (simp add: row_totals_def)
qed

lemma row_sums_length:
  "list_all (\<lambda>column. length (snd column) = n) columns \<Longrightarrow> length (row_sums n columns) = n"
  by (induction columns) (simp_all add: row_sums_def)

lemma row_sums_nth:
  assumes "list_all (\<lambda>column. length (snd column) = n) columns" and "i < n"
  shows "row_sums n columns ! i = sum_list (map (\<lambda>column. snd column ! i) columns)"
  using assms(1)
proof (induction columns)
  case Nil
  with assms(2) show ?case by (simp add: row_sums_def)
next
  case (Cons c cs)
  then have len: "length (row_sums n cs) = n" "length (snd c) = n"
    by (simp_all add: row_sums_length)
  have "row_sums n (c # cs) = map2 (+) (snd c) (row_sums n cs)"
    by (simp add: row_sums_def)
  with len assms(2) Cons show ?case by simp
qed

lemma select_map:
  "select (map (\<lambda>c. (fst c, g c)) columns) labels = map (\<lambda>c. (fst c, g c)) (select columns labels)"
  by (simp add: select_def map_concat filter_map comp_def)

lemma select_all: "list_all P entries \<Longrightarrow> list_all P (select entries labels)"
  by (auto simp: select_def list_all_iff)

lemma table_total_preserved:
  assumes wf: "well_formed df"
    and dist: "distinct (map fst (df_columns df))"
    and other: "''Other'' \<notin> set (slice_to (map fst (sort_values_descending
                   (map (\<lambda>column. (fst column, sum_list (snd column))) (df_columns df)))) top_n)"
  shows "row_totals (top_and_other (DataFrame df) top_n) = row_totals (DataFrame df)"
proof -
  let ?n = "length (df_index df)" and ?cols = "df_columns df"
  let ?L = "map fst (sort_values_descending (map (\<lambda>column. (fst column, sum_list (snd column))) ?cols))"
  let ?T = "slice_to ?L top_n" and ?O = "slice_from ?L top_n"
  let ?top = "select ?cols ?T" and ?rest = "select ?cols ?O"
  from wf have all: "list_all (\<lambda>column. length (snd column) = ?n) ?cols"
    by (simp add: well_formed_def)
  have L: "distinct ?L" "set ?L = fst ` set ?cols"
    using sorted_labels [of "map (\<lambda>column. (fst column, sum_list (snd column))) ?cols"] dist
    by (simp_all add: comp_def image_image)
  from other select_labels [of ?cols ?T] have "''Other'' \<notin> fst ` set ?top" by blast
  then have res: "row_totals (top_and_other (DataFrame df) top_n)
                    = row_sums ?n (?top @ [(''Other'', row_sums ?n ?rest)])"
    by (simp add: top_and_other_def row_totals_def set_item_def Let_def)
  have all': "list_all (\<lambda>column. length (snd column) = ?n) (?top @ [(''Other'', row_sums ?n ?rest)])"
    using all by (simp add: select_all row_sums_length)
  have "row_sums ?n (?top @ [(''Other'', row_sums ?n ?rest)]) = row_sums ?n ?cols"
  proof (rule nth_equalityI)
    show "length (row_sums ?n (?top @ [(''Other'', row_sums ?n ?rest)])) = length (row_sums ?n ?cols)"
      using all all' by (simp only: row_sums_length)
  next
    fix i assume "i < length (row_sums ?n (?top @ [(''Other'', row_sums ?n ?rest)]))"
    with all' have i: "i < ?n" by (simp only: row_sums_length)
    let ?s = "map (\<lambda>c. (fst c, snd c ! i)) ?cols"
    have sel: "sum_list (map (\<lambda>column. snd column ! i) (select ?cols ls))
                 = sum_list (map snd (select ?s ls))" for ls
      by (simp add: select_map comp_def)
    have "row_sums ?n (?top @ [(''Other'', row_sums ?n ?rest)]) ! i
            = sum_list (map (\<lambda>column. snd column ! i) ?top) + row_sums ?n ?rest ! i"
      using row_sums_nth [OF all' i] by simp
    also have "row_sums ?n ?rest ! i = sum_list (map (\<lambda>column. snd column ! i) ?rest)"
      using all i by (intro row_sums_nth select_all)
    also have "sum_list (map (\<lambda>column. snd column ! i) ?top) + sum_list (map (\<lambda>column. snd column ! i) ?rest)
                 = sum_list (map snd (select ?s (?T @ ?O)))"
      by (simp add: sel select_append)
    also have "\<dots> = sum_list (map snd ?s)"
      unfolding slices_append using L by (intro select_total) (auto simp: image_image)
    also have "\<dots> = row_sums ?n ?cols ! i"
      using row_sums_nth [OF all i] by (simp add: comp_def)
    finally show "row_sums ?n (?top @ [(''Other'', row_sums ?n ?rest)]) ! i = row_sums ?n ?cols ! i" .
  qed
  with res show ?thesis by (simp add: row_totals_def)
qed

section \<open>Properties of \<open>balance_by_currency\<close>\<close>

lemma series_add_entries:
  "a k = as_entry xs \<Longrightarrow> b k = as_entry ys \<Longrightarrow> series_add a b k = as_entry (xs @ ys)"
  by (auto simp: series_add_def as_entry_def)

lemma resolve_currency_resolved: "resolve_currency book (map_option Inr cur) = Inr cur"
  by (cases cur) (simp_all add: resolve_currency_def)

lemma contributions_append:
  "contributions book cc cur d code (xs @ ys)
     = contributions book cc cur d code xs @ contributions book cc cur d code ys"
  by (simp add: contributions_def)

lemma children_by_currency_entries:
  assumes "\<And>ch. ch \<in> set chs \<Longrightarrow> keyed_by_native book cc cur d ch"
    and "children_by_currency book cc chs a d cur series = Inr s"
    and "series code = as_entry xs"
  shows "s code = as_entry (xs @ contributions book cc cur d code
                                   (concat (map (\<lambda>child. subtree child (Some a)) chs)))"
  using assms
proof (induction chs arbitrary: series xs)
  case Nil
  then show ?case by (simp add: contributions_def)
next
  case (Cons ch chs)
  from Cons.prems(2) obtain cs where
    child: "balance_by_currency book cc ch (Some a) d (map_option Inr cur) = Inr cs"
    and rest: "children_by_currency book cc chs a d cur (series_add series cs) = Inr s"
    by (auto split: sum.splits)
  from Cons.prems(1) have "keyed_by_native book cc cur d ch" by simp
  with child have "cs code = as_entry (contributions book cc cur d code (subtree ch (Some a)))"
    unfolding keyed_by_native_def using resolve_currency_resolved by blast
  with Cons.prems(3)
  have "series_add series cs code
          = as_entry (xs @ contributions book cc cur d code (subtree ch (Some a)))"
    by (rule series_add_entries)
  from Cons.IH [OF _ rest this] Cons.prems(1) show ?case
    by (simp add: contributions_append)
qed

lemma keyed_by_native_all: "keyed_by_native book cc cur d a"
proof (induction a)
  case (Account nm com sg sps chs)
  let ?a = "Account nm com sg sps chs"
  show ?case
    unfolding keyed_by_native_def
  proof (intro allI impI)
    fix par currency s code
    assume res: "resolve_currency book currency = Inr cur"
      and ok: "balance_by_currency book cc ?a par d currency = Inr s"
    from ok res obtain balance where
      own: "outcome (get_historical_balance (b_prices book) cc ?a par False cur True d None) = Inr balance"
      and kids: "children_by_currency book cc chs ?a d cur
                   (if balance \<noteq> 0 then [mnemonic com \<mapsto> 0 + balance] else Map.empty) = Inr s"
      by (auto simp: Let_def split: sum.splits)
    have first: "(if balance \<noteq> 0 then [mnemonic com \<mapsto> 0 + balance] else Map.empty) code
                   = as_entry (contribution book cc cur d code (?a, par))"
      using own by (simp add: contribution_def as_entry_def)
    from children_by_currency_entries [OF _ kids first] Account.IH
    have "s code = as_entry (contribution book cc cur d code (?a, par)
                     @ contributions book cc cur d code
                         (concat (map (\<lambda>child. subtree child (Some ?a)) chs)))"
      by simp
    then show "s code = as_entry (contributions book cc cur d code (subtree ?a par))"
      by (simp add: contributions_def)
  qed
qed

text \<open>
  Claim C5, amended. Whatever currency is supplied (a code of the book, a commodity or
  none), a series that \<open>balance_by_currency\<close> returns is keyed by the native currency
  codes of the subtree: under a code it has an entry exactly when some account of the
  subtree with that native code has a nonzero own balance, and the entry is the sum of
  those balances, each expressed in the supplied currency (in the account's own
  commodity when none is supplied). The entries do not collapse into one.
\<close>

theorem balance_by_currency_keys:
  assumes "resolve_currency book currency = Inr cur"
    and "balance_by_currency book cc a par at_date currency = Inr s"
  shows "s code = as_entry (contributions book cc cur at_date code (subtree a par))"
  using keyed_by_native_all assms unfolding keyed_by_native_def by blast

lemma usd_to_gbp:
  "currency_conversion_on_date usd_gbp_eur_prices (Commodity ''USD'') (Commodity ''GBP'') 20 (Some Map.empty)
     = Inr (4 / 5, Some (cache_store Map.empty (Commodity ''USD'', Commodity ''GBP'') 20 (4 / 5)))"
  by (simp add: currency_conversion_on_date_def usd_gbp_eur_filter closest_def cache_lookup_def)

lemma current_account_converted:
  "convert_balance usd_gbp_eur_prices no_latest current_account (Some bank) (Commodity ''GBP'')
     (Some 20) None 100
   = Inr (80, Some (cache_store Map.empty (Commodity ''USD'', Commodity ''GBP'') 20 (4 / 5)))"
  by (simp add: convert_balance_def current_account_def usd_to_gbp)

lemma current_account_in_gbp:
  "outcome (get_historical_balance usd_gbp_eur_prices no_latest current_account (Some bank) False
              (Some (Commodity ''GBP'')) True (Some 20) None) = Inr 80"
proof -
  have "own_quantity [\<lparr>sp_quantity = 100, sp_post_date = 3\<rparr>] (Some 20) = 100"
    by (simp add: own_quantity_def)
  with current_account_converted show ?thesis
    by (simp add: current_account_def outcome_def)
qed

lemma bank_in_gbp:
  "outcome (get_historical_balance usd_gbp_eur_prices no_latest bank (Some root_account) False
              (Some (Commodity ''GBP'')) True (Some 20) None) = Inr 40"
  by (simp add: bank_def convert_balance_def own_quantity_def outcome_def)

lemma current_account_series:
  "balance_by_currency bank_book no_latest current_account (Some bank) (Some 20)
     (Some (Inr (Commodity ''GBP''))) = Inr [''USD'' \<mapsto> 80]"
proof -
  have "balance_by_currency bank_book no_latest
          (Account ''Checking'' (Commodity ''USD'') 1 [\<lparr>sp_quantity = 100, sp_post_date = 3\<rparr>] [])
          (Some bank) (Some 20) (Some (Inr (Commodity ''GBP''))) = Inr [''USD'' \<mapsto> 80]"
    using current_account_in_gbp
    by (simp add: resolve_currency_def bank_book_def current_account_def)
  then show ?thesis by (simp add: current_account_def)
qed

lemma bank_series:
  "balance_by_currency bank_book no_latest bank (Some root_account) (Some 20) (Some (Inr (Commodity ''GBP'')))
     = Inr (series_add [''GBP'' \<mapsto> 40] [''USD'' \<mapsto> 80])"
proof -
  have "balance_by_currency bank_book no_latest
          (Account ''Bank'' (Commodity ''GBP'') 1 [\<lparr>sp_quantity = 40, sp_post_date = 2\<rparr>] [current_account])
          (Some root_account) (Some 20) (Some (Inr (Commodity ''GBP'')))
        = Inr (series_add [''GBP'' \<mapsto> 40] [''USD'' \<mapsto> 80])"
    using bank_in_gbp current_account_series
    by (simp add: resolve_currency_def bank_book_def bank_def)
  then show ?thesis by (simp add: bank_def)
qed

text \<open>
  Claim C5, as stated: with an explicit currency the mapping has exactly one entry. For
  the bank account (40 GBP) above the current account (100 USD, 80 GBP at the rate
  0.8) and the currency GBP, the mapping has an entry under GBP and another under USD.
\<close>

theorem balance_by_currency_counterexample:
  "entry (balance_by_currency bank_book no_latest bank (Some root_account) (Some 20) (Some (Inr (Commodity ''GBP''))))
     ''GBP'' = Some 40
   \<and> entry (balance_by_currency bank_book no_latest bank (Some root_account) (Some 20) (Some (Inr (Commodity ''GBP''))))
     ''USD'' = Some 80"
  by (simp add: bank_series entry_def series_add_def)

theorem balance_by_currency_keys_witness:
  "as_entry (contributions bank_book no_latest (Some (Commodity ''GBP'')) (Some 20) ''USD'' (subtree bank (Some root_account)))
     = Some 80"
proof -
  have res: "resolve_currency bank_book (Some (Inr (Commodity ''GBP''))) = Inr (Some (Commodity ''GBP''))"
    by (simp add: resolve_currency_def)
  from balance_by_currency_keys [OF res bank_series, of "''USD''"] show ?thesis
    by (simp add: series_add_def)
qed

text \<open>With no currency supplied an own balance is not converted and cannot fail.\<close>

lemma own_balance_without_currency:
  "outcome (get_historical_balance P cc a par False None True d None)
     = Inr (own_quantity (acc_splits a) d * of_int (acc_sign a))"
  by (cases a) (simp add: convert_balance_def outcome_def)

end
